theory Spec2Isabelle
  imports Complex_Main "HOL-Library.Sublist"
begin

section \<open>Python values used by the retrieval code\<close>

text \<open>
  A Python \<open>str\<close> is a sequence of Unicode code points, and \<open>len\<close> counts code points
  (the Korean tokens of the source are two or three of them), so a string is a list of
  code points. \<open>ustr\<close> embeds an ASCII literal.
\<close>

type_synonym pystr = "nat list"

definition ustr :: "string \<Rightarrow> pystr" where
  "ustr s = map of_char s"

text \<open>The exceptions that the modelled code can raise.\<close>

datatype py_error = ZeroDivisionError | ValueError | NameError | OSError

text \<open>
  Library functions that the source calls and does not define: \<open>str.lower\<close>, the
  classes \<open>\w\<close> and \<open>\s\<close> of \<open>re\<close>, BeautifulSoup's
  \<open>get_text(separator=" ", strip=True)\<close>, \<open>str\<close> of a float and \<open>float\<close> of a string.
  They are parameters of the model.
\<close>

record pylib =
  str_lower :: "pystr \<Rightarrow> pystr"
  re_word :: "nat \<Rightarrow> bool"
  re_space :: "nat \<Rightarrow> bool"
  bs_get_text :: "pystr \<Rightarrow> pystr"
  float_str :: "real \<Rightarrow> pystr"
  float_of_str :: "pystr \<Rightarrow> real option"

text \<open>Floats are idealised as reals; \<open>/\<close> and \<open>math.log\<close> raise as in Python.\<close>

definition py_truediv :: "real \<Rightarrow> real \<Rightarrow> py_error + real" where
  "py_truediv a b = (if b = 0 then Inl ZeroDivisionError else Inr (a / b))"

definition math_log :: "real \<Rightarrow> py_error + real" where
  "math_log x = (if x \<le> 0 then Inl ValueError else Inr (ln x))"

text \<open>\<open>xs[:k]\<close> for a Python int \<open>k\<close>: a negative \<open>k\<close> counts from the end.\<close>

definition py_take :: "int \<Rightarrow> 'a list \<Rightarrow> 'a list" where
  "py_take k xs = (if k < 0 then take (length xs - nat (- k)) xs else take (nat k) xs)"

text \<open>
  Dictionaries keep insertion order, and the code iterates over them, so a dict is an
  association list: \<open>d[k] = v\<close> replaces the value in place or appends a new key.
\<close>

fun dict_set :: "'k \<Rightarrow> 'v \<Rightarrow> ('k \<times> 'v) list \<Rightarrow> ('k \<times> 'v) list" where
  "dict_set k v [] = [(k, v)]"
| "dict_set k v (p # ps) = (if fst p = k then (k, v) # ps else p # dict_set k v ps)"

definition dict_get0 :: "('k \<times> nat) list \<Rightarrow> 'k \<Rightarrow> nat" where
  "dict_get0 d k = (case map_of d k of None \<Rightarrow> 0 | Some v \<Rightarrow> v)"

definition dict_incr :: "'k \<Rightarrow> ('k \<times> nat) list \<Rightarrow> ('k \<times> nat) list" where
  "dict_incr k d = dict_set k (dict_get0 d k + 1) d"

text \<open>\<open>sorted(xs, key=..., reverse=True)\<close>: stable, largest key first.\<close>

definition sorted_desc :: "('a \<Rightarrow> real) \<Rightarrow> 'a list \<Rightarrow> 'a list" where
  "sorted_desc key xs = sort_key (\<lambda>x. - key x) xs"

section \<open>search.py\<close>

subsection \<open>tokenize\<close>

text \<open>\<open>re.findall(r"\w+", text)\<close>: the maximal runs of word characters.\<close>

fun findall_word :: "(nat \<Rightarrow> bool) \<Rightarrow> pystr \<Rightarrow> pystr \<Rightarrow> pystr list" where
  "findall_word w cur [] = (if cur = [] then [] else [cur])"
| "findall_word w cur (c # cs) =
     (if w c then findall_word w (cur @ [c]) cs
      else (if cur = [] then [] else [cur]) @ findall_word w [] cs)"

definition particles :: "nat list" where
  "particles = [51060, 44032, 51008, 45716, 51012, 47484, 50556, 50500]"

fun add_stripped :: "pystr list \<Rightarrow> pystr list" where
  "add_stripped [] = []"
| "add_stripped (t # ts) =
     (if length t > 2 \<and> last t \<in> set particles then [t, butlast t] else [t]) @ add_stripped ts"

definition tokenize :: "pylib \<Rightarrow> pystr \<Rightarrow> pystr list" where
  "tokenize L text =
     (if text = [] then []
      else add_stripped (map (str_lower L) (findall_word (re_word L) [] text)))"

subsection \<open>The corpus directory and the index\<close>

text \<open>
  A parsed notice, with the defaults of the source applied
  (\<open>parsed.get('title') or ''\<close> and so on).
\<close>

record parsed_doc =
  p_title :: pystr
  p_content :: pystr
  p_ocr_text :: pystr
  p_writer :: pystr
  p_source_url :: "pystr option"

text \<open>
  \<open>PARSED_DIR\<close>: the file names in \<open>os.listdir\<close> order, each with its JSON content, or
  \<open>None\<close> when opening or parsing the file raises.
\<close>

type_synonym parsed_dir = "(pystr \<times> parsed_doc option) list"

record BM25Index =
  N :: nat
  avgdl :: real
  doc_len :: "(pystr \<times> nat) list"
  tf :: "(pystr \<times> (pystr \<times> nat) list) list"
  df :: "(pystr \<times> nat) list"
  docs :: "(pystr \<times> pystr) list"

definition BM25Index_init :: BM25Index where
  "BM25Index_init = \<lparr>N = 0, avgdl = 0, doc_len = [], tf = [], df = [], docs = []\<rparr>"

text \<open>\<open>re.sub('<[^>]+>', ' ', content)\<close>.\<close>

function sub_tags :: "pystr \<Rightarrow> pystr" where
  "sub_tags [] = []"
| "sub_tags (c # cs) =
     (if c = 60 \<and> takeWhile (\<lambda>x. x \<noteq> 62) cs \<noteq> [] \<and> dropWhile (\<lambda>x. x \<noteq> 62) cs \<noteq> []
      then 32 # sub_tags (tl (dropWhile (\<lambda>x. x \<noteq> 62) cs))
      else c # sub_tags cs)"
  by pat_completeness auto
termination
proof (relation "measure length")
  show "wf (measure length)" by simp
next
  fix c :: nat and cs :: "nat list"
  have "length (tl (dropWhile (\<lambda>x. x \<noteq> 62) cs)) \<le> length cs"
    using length_dropWhile_le [of "\<lambda>x. x \<noteq> 62" cs] by simp
  then show "(tl (dropWhile (\<lambda>x. x \<noteq> 62) cs), c # cs) \<in> measure length" by simp
next
  fix c :: nat and cs :: "nat list"
  show "(cs, c # cs) \<in> measure length" by simp
qed

definition endswith :: "pystr \<Rightarrow> pystr \<Rightarrow> bool" where
  "endswith s suf = suffix suf s"

definition doc_text :: "parsed_doc \<Rightarrow> pystr" where
  "doc_text d = p_title d @ [32] @ sub_tags (p_content d) @ [32] @ p_ocr_text d"

text \<open>The inner loops of \<open>build\<close>: counting the tokens, then bumping \<open>df\<close> per distinct token.\<close>

fun count_freqs :: "(pystr \<times> nat) list \<Rightarrow> pystr list \<Rightarrow> (pystr \<times> nat) list" where
  "count_freqs freqs [] = freqs"
| "count_freqs freqs (t # ts) = count_freqs (dict_incr t freqs) ts"

fun bump_df :: "(pystr \<times> nat) list \<Rightarrow> pystr list \<Rightarrow> (pystr \<times> nat) list" where
  "bump_df d [] = d"
| "bump_df d (t # ts) = bump_df (dict_incr t d) ts"

text \<open>
  The loop over the files. The state is the index object together with the locals \<open>N\<close>
  and \<open>total_len\<close>; a file that cannot be read is skipped.
\<close>

fun build_loop :: "pylib \<Rightarrow> BM25Index \<times> nat \<times> nat \<Rightarrow> parsed_dir \<Rightarrow> BM25Index \<times> nat \<times> nat" where
  "build_loop L st [] = st"
| "build_loop L (self, n, total_len) ((fname, file) # files) =
     (case file of
        None \<Rightarrow> build_loop L (self, n, total_len) files
      | Some parsed \<Rightarrow>
          (let pid = take (length fname - 5) fname;
               toks = tokenize L (doc_text parsed);
               freqs = count_freqs [] toks;
               self' = self\<lparr>docs := dict_set pid (p_title parsed) (docs self),
                             doc_len := dict_set pid (length toks) (doc_len self),
                             tf := dict_set pid freqs (tf self),
                             df := bump_df (df self) (map fst freqs)\<rparr>
           in build_loop L (self', n + 1, total_len + length toks) files))"

definition build :: "pylib \<Rightarrow> parsed_dir \<Rightarrow> BM25Index \<Rightarrow> BM25Index" where
  "build L dir self =
     (let files = filter (\<lambda>(fname, file). endswith fname (ustr ''.json'')) dir;
          (self', n, total_len) = build_loop L (self, 0, 0) files
      in self'\<lparr>N := n, avgdl := (if n \<noteq> 0 then real total_len / real n else 0)\<rparr>)"

subsection \<open>score\<close>

definition idf_term :: "BM25Index \<Rightarrow> pystr \<Rightarrow> py_error + real" where
  "idf_term self t =
     (let d = dict_get0 (df self) t
      in case py_truediv (real_of_int (int (N self) - int d) + 0.5) (real d + 0.5) of
           Inl e \<Rightarrow> Inl e
         | Inr q \<Rightarrow> math_log (1 + q))"

text \<open>\<open>for t in set(q_toks): idf[t] = ...\<close>, the set visited in order of first occurrence.\<close>

fun idf_loop :: "BM25Index \<Rightarrow> (pystr \<times> real) list \<Rightarrow> pystr list \<Rightarrow> py_error + (pystr \<times> real) list" where
  "idf_loop self idf [] = Inr idf"
| "idf_loop self idf (t # ts) =
     (case idf_term self t of
        Inl e \<Rightarrow> Inl e
      | Inr w \<Rightarrow> idf_loop self (dict_set t w idf) ts)"

text \<open>The loop over the query tokens for one document.\<close>

fun term_loop :: "real \<Rightarrow> real \<Rightarrow> real \<Rightarrow> (pystr \<times> real) list \<Rightarrow> (pystr \<times> nat) list \<Rightarrow> nat
    \<Rightarrow> real \<Rightarrow> pystr list \<Rightarrow> py_error + real" where
  "term_loop k1 b avg idf freqs dl score [] = Inr score"
| "term_loop k1 b avg idf freqs dl score (t # ts) =
     (case map_of idf t of
        None \<Rightarrow> term_loop k1 b avg idf freqs dl score ts
      | Some w \<Rightarrow>
          (let f = real (dict_get0 freqs t)
           in case (if avg \<noteq> 0 then py_truediv (real dl) avg else Inr 0) of
                Inl e \<Rightarrow> Inl e
              | Inr r \<Rightarrow>
                  (let denom = f + k1 * (1 - b + b * r)
                   in case py_truediv (w * (f * (k1 + 1))) (if denom \<noteq> 0 then denom else 1) of
                        Inl e \<Rightarrow> Inl e
                      | Inr x \<Rightarrow> term_loop k1 b avg idf freqs dl (score + x) ts)))"

text \<open>The loop over \<open>self.tf.items()\<close>.\<close>

fun doc_loop :: "real \<Rightarrow> real \<Rightarrow> BM25Index \<Rightarrow> (pystr \<times> real) list \<Rightarrow> pystr list
    \<Rightarrow> (pystr \<times> real) list \<Rightarrow> (pystr \<times> (pystr \<times> nat) list) list \<Rightarrow> py_error + (pystr \<times> real) list" where
  "doc_loop k1 b self idf q_toks scores [] = Inr scores"
| "doc_loop k1 b self idf q_toks scores ((pid, freqs) # rest) =
     (case term_loop k1 b (avgdl self) idf freqs (dict_get0 (doc_len self) pid) 0 q_toks of
        Inl e \<Rightarrow> Inl e
      | Inr s \<Rightarrow>
          doc_loop k1 b self idf q_toks (if s > 0 then dict_set pid s scores else scores) rest)"

definition score :: "pylib \<Rightarrow> BM25Index \<Rightarrow> pystr \<Rightarrow> real \<Rightarrow> real \<Rightarrow> int \<Rightarrow> py_error + (pystr \<times> real) list" where
  "score L self query k1 b top_k =
     (let q_toks = filter (\<lambda>t. length t > 0) (tokenize L query)
      in if q_toks = [] \<or> N self = 0 then Inr []
         else case idf_loop self [] (remdups q_toks) of
                Inl e \<Rightarrow> Inl e
              | Inr idf \<Rightarrow>
                  (case doc_loop k1 b self idf q_toks [] (tf self) of
                     Inl e \<Rightarrow> Inl e
                   | Inr scores \<Rightarrow> Inr (py_take top_k (sorted_desc snd scores))))"

subsection \<open>get_index and search\<close>

text \<open>
  \<open>INDEX_FILE\<close>: absent, present but not loadable, or a snapshot written by \<open>save\<close>.
  The process state of \<open>search.py\<close> is the parsed directory, the index file (and whether
  it can be written) and the module global \<open>_global_index\<close>.
\<close>

datatype index_file = Absent | Corrupt | Snapshot BM25Index

record search_state =
  parsed_files :: parsed_dir
  bm25_file :: index_file
  bm25_writable :: bool
  global_index :: "BM25Index option"

definition load :: "search_state \<Rightarrow> BM25Index \<Rightarrow> py_error + bool \<times> BM25Index" where
  "load w self =
     (case bm25_file w of
        Absent \<Rightarrow> Inr (False, self)
      | Corrupt \<Rightarrow> Inl ValueError
      | Snapshot d \<Rightarrow> Inr (True, d))"

definition save :: "search_state \<Rightarrow> BM25Index \<Rightarrow> py_error + search_state" where
  "save w self = (if bm25_writable w then Inr (w\<lparr>bm25_file := Snapshot self\<rparr>) else Inl OSError)"

definition get_index :: "pylib \<Rightarrow> search_state \<Rightarrow> (py_error + BM25Index) \<times> search_state" where
  "get_index L w =
     (case global_index w of
        Some idx \<Rightarrow> (Inr idx, w)
      | None \<Rightarrow>
          (case load w BM25Index_init of
             Inl e \<Rightarrow> (Inl e, w)
           | Inr (loaded, idx) \<Rightarrow>
               if loaded then (Inr idx, w\<lparr>global_index := Some idx\<rparr>)
               else (let idx' = build L (parsed_files w) idx;
                         w' = (case save w idx' of Inl e \<Rightarrow> w | Inr w1 \<Rightarrow> w1)
                     in (Inr idx', w'\<lparr>global_index := Some idx'\<rparr>))))"

definition search :: "pylib \<Rightarrow> search_state \<Rightarrow> pystr \<Rightarrow> int
    \<Rightarrow> (py_error + (pystr \<times> real) list) \<times> search_state" where
  "search L w query top_k =
     (case get_index L w of
        (Inl e, w') \<Rightarrow> (Inl e, w')
      | (Inr idx, w') \<Rightarrow> (score L idx query 1.5 0.75 top_k, w'))"

section \<open>api.py\<close>

subsection \<open>String operations of Python used by the chat endpoint\<close>

text \<open>\<open>s.count(sub)\<close>: the number of non-overlapping occurrences, scanning from the left.\<close>

function count_sub :: "pystr \<Rightarrow> pystr \<Rightarrow> nat" where
  "count_sub [] sub = (if sub = [] then 1 else 0)"
| "count_sub (c # cs) sub =
     (if sub = [] then Suc (count_sub cs sub)
      else if prefix sub (c # cs) then Suc (count_sub (drop (length sub) (c # cs)) sub)
      else count_sub cs sub)"
  by pat_completeness auto
termination
  by (relation "measure (\<lambda>(s, sub). length s)") auto

text \<open>\<open>sub in s\<close>.\<close>

fun py_in :: "pystr \<Rightarrow> pystr \<Rightarrow> bool" where
  "py_in sub [] = (sub = [])"
| "py_in sub (c # cs) = (prefix sub (c # cs) \<or> py_in sub cs)"

text \<open>\<open>s.strip()\<close>, \<open>sep.join(xs)\<close> and \<open>int(x)\<close> of a float.\<close>

definition py_strip :: "pylib \<Rightarrow> pystr \<Rightarrow> pystr" where
  "py_strip L s = rev (dropWhile (re_space L) (rev (dropWhile (re_space L) s)))"

fun py_join :: "pystr \<Rightarrow> pystr list \<Rightarrow> pystr" where
  "py_join sep [] = []"
| "py_join sep [x] = x"
| "py_join sep (x # y # ys) = x @ sep @ py_join sep (y # ys)"

definition py_int :: "real \<Rightarrow> int" where
  "py_int x = (if x < 0 then \<lceil>x\<rceil> else \<lfloor>x\<rfloor>)"

text \<open>
  \<open>re.sub(r"https?:\\/\\/\\S+", "", text)\<close>. In the raw string every \<open>\\\<close> is an escaped
  backslash, so the pattern is: \<open>http\<close>, an optional \<open>s\<close>, a colon, then backslash, slash,
  backslash, slash, backslash, and one or more capital letters \<open>S\<close>. \<open>match_url\<close> gives the
  length of the match at the start of the text.
\<close>

definition match_url :: "pystr \<Rightarrow> nat option" where
  "match_url s =
     (if \<not> prefix [104, 116, 116, 112] s then None
      else (let r = drop 4 s;
                opt = (if r \<noteq> [] \<and> hd r = 115 then 1 else 0);
                r' = drop opt r
            in if prefix [58, 92, 47, 92, 47, 92] r' \<and> takeWhile (\<lambda>c. c = 83) (drop 6 r') \<noteq> []
               then Some (4 + opt + 6 + length (takeWhile (\<lambda>c. c = 83) (drop 6 r')))
               else None))"

text \<open>The scan of \<open>re.sub\<close>: \<open>n\<close> counts the characters of the current match still to drop.\<close>

fun sub_url_from :: "nat \<Rightarrow> pystr \<Rightarrow> pystr" where
  "sub_url_from n [] = []"
| "sub_url_from (Suc n) (c # cs) = sub_url_from n cs"
| "sub_url_from 0 (c # cs) =
     (case match_url (c # cs) of
        Some m \<Rightarrow> sub_url_from (m - 1) cs
      | None \<Rightarrow> c # sub_url_from 0 cs)"

definition sub_url :: "pystr \<Rightarrow> pystr" where
  "sub_url text = sub_url_from 0 text"

subsection \<open>strip_html and extract_relevant_sentences\<close>

definition strip_html :: "pylib \<Rightarrow> pystr \<Rightarrow> pystr" where
  "strip_html L html = (if html = [] then [] else bs_get_text L html)"

text \<open>
  \<open>re.split(r'(?<=[.!?])\s+', text)\<close>: a run of white space is a separator when the
  character before it is one of \<open>.!?\<close>. \<open>cur\<close> is the piece being read, \<open>skip\<close> says that a
  separator is being consumed.
\<close>

fun split_sents :: "(nat \<Rightarrow> bool) \<Rightarrow> pystr \<Rightarrow> bool \<Rightarrow> pystr \<Rightarrow> pystr list" where
  "split_sents sp cur skip [] = [cur]"
| "split_sents sp cur skip (c # cs) =
     (if skip \<and> sp c then split_sents sp cur True cs
      else if sp c \<and> cur \<noteq> [] \<and> last cur \<in> {46, 33, 63} then cur # split_sents sp [] True cs
      else split_sents sp (cur @ [c]) False cs)"

definition extract_relevant_sentences :: "pylib \<Rightarrow> pystr \<Rightarrow> pystr \<Rightarrow> int \<Rightarrow> pystr list" where
  "extract_relevant_sentences L text q max_sentences =
     (let q_tokens = map (str_lower L) (filter (\<lambda>t. length t > 2) (findall_word (re_word L) [] q))
      in if q_tokens = [] then []
         else (let sents = split_sents (re_space L) [] False text;
                   scored = filter (\<lambda>(sc, s). sc > 0)
                     (map (\<lambda>s. (real (length (filter (\<lambda>t. py_in t (str_lower L s)) q_tokens)), s)) sents)
               in map snd (py_take max_sentences (sorted_desc fst scored))))"

subsection \<open>The stores read by chat\<close>

text \<open>
  \<open>load_index()\<close> gives the dict of \<open>index.json\<close>, or \<open>{}\<close> when it cannot be read; of each
  entry the code reads only \<open>meta.get("url")\<close>. A parsed notice is read from
  \<open>PARSED_DIR/<id>.json\<close>; \<open>None\<close> stands for the exception of \<open>open\<close> or \<open>json.load\<close>.
\<close>

type_synonym index_json = "(pystr \<times> pystr option) list"

definition read_parsed :: "parsed_dir \<Rightarrow> pystr \<Rightarrow> parsed_doc option" where
  "read_parsed dir name =
     (case map_of dir (name @ ustr ''.json'') of
        None \<Rightarrow> None
      | Some file \<Rightarrow> file)"

text \<open>
  A candidate is the tuple \<open>(score, post_id, title, snippet, full)\<close>. The second
  component is a string in Tiers 1 to 4; the loop of Tier 5 puts a float there.
\<close>

datatype pyid = StrId pystr | FloatId real

type_synonym candidate = "real \<times> pyid \<times> pystr \<times> pystr \<times> pystr"

record chat_request =
  req_question :: pystr
  req_top_k :: int

record source =
  s_id :: pyid
  s_title :: pystr
  s_url :: "pystr option"
  s_score :: "int option"
  s_excerpt :: "pystr option"

subsection \<open>Tier 1: keyword and synonym scoring\<close>

text \<open>The dict \<open>SYNONYMS\<close>, a local variable of the function \<open>search\<close> (lines 75 to 80).\<close>

definition search_SYNONYMS :: "(pystr \<times> pystr list) list" where
  "search_SYNONYMS =
     [([48520, 51060, 51061],
       [[48520, 51060, 51061], [51228, 54620], [48520, 51060, 51061, 51060],
        [48520, 51060, 51061, 51012], [48520, 51060, 51061, 51008]]),
      ([48716, 47532],
       [[48716, 47532], [48716, 47140], [45824, 50668], [45824, 50668, 54616, 45796],
        [45824, 50668, 44032, 45733]]),
      ([48716, 47540], [[48716, 47540], [45824, 50668]]),
      ([45572, 44396],
       [[45572, 44396], [45572, 44396, 50556], [45572, 44396, 51064, 51648], [45572, 44032]])]"

text \<open>
  What the name \<open>SYNONYMS\<close> resolves to inside \<open>chat\<close> (line 153). \<open>chat\<close> does not assign
  it, and the module \<open>api\<close> has no global of that name (the only binding is the local of
  \<open>search\<close>): the lookup finds nothing, and reading the name raises \<open>NameError\<close>.
\<close>

definition chat_SYNONYMS :: "(pystr \<times> pystr list) list option" where
  "chat_SYNONYMS = None"

fun variant_loop :: "pystr \<Rightarrow> pystr \<Rightarrow> nat \<Rightarrow> pystr list \<Rightarrow> nat" where
  "variant_loop title content sc [] = sc"
| "variant_loop title content sc (v # vs) =
     variant_loop title content (sc + count_sub title v * 2 + count_sub content v) vs"

fun synonym_loop :: "pystr \<Rightarrow> pystr \<Rightarrow> pystr \<Rightarrow> nat \<Rightarrow> (pystr \<times> pystr list) list \<Rightarrow> nat" where
  "synonym_loop ql title content sc [] = sc"
| "synonym_loop ql title content sc ((key, variants) # rest) =
     synonym_loop ql title content
       (if py_in key ql then variant_loop title content sc variants else sc) rest"

fun token_loop :: "pystr \<Rightarrow> pystr \<Rightarrow> nat \<Rightarrow> pystr list \<Rightarrow> nat" where
  "token_loop title content sc [] = sc"
| "token_loop title content sc (tok # toks) =
     token_loop title content
       (if length tok > 1
        then (if py_in tok title then sc + 2 else sc) + count_sub content tok
        else sc) toks"

text \<open>
  The body of the \<open>try\<close> of Tier 1 for one \<open>post_id\<close>; \<open>syn\<close> is what the name \<open>SYNONYMS\<close>
  resolves to. \<open>Inl\<close> is an exception (caught by \<open>except Exception: continue\<close>), \<open>Inr None\<close>
  a sc of \<open>0\<close>.
\<close>

definition tier1_doc :: "pylib \<Rightarrow> (pystr \<times> pystr list) list option \<Rightarrow> parsed_dir \<Rightarrow> pystr \<Rightarrow> pystr
    \<Rightarrow> py_error + candidate option" where
  "tier1_doc L syn dir ql post_id =
     (case read_parsed dir post_id of
        None \<Rightarrow> Inl OSError
      | Some parsed \<Rightarrow>
          (let title = p_title parsed;
               content0 = strip_html L (p_content parsed);
               ocr = p_ocr_text parsed;
               content = (if ocr \<noteq> [] then content0 @ [10] @ ocr else content0);
               sc = count_sub (str_lower L title) ql * 3 + count_sub (str_lower L content) ql
           in case syn of
                None \<Rightarrow> Inl NameError
              | Some table \<Rightarrow>
                  (let sc1 = synonym_loop ql (str_lower L title) (str_lower L content) sc table;
                       sc2 = token_loop (str_lower L title) (str_lower L content) sc1
                                  (findall_word (re_word L) [] ql)
                   in Inr (if sc2 > 0
                           then Some (real sc2, StrId post_id, title, take 400 content, content)
                           else None))))"

fun tier1 :: "pylib \<Rightarrow> (pystr \<times> pystr list) list option \<Rightarrow> parsed_dir \<Rightarrow> pystr \<Rightarrow> candidate list
    \<Rightarrow> pystr list \<Rightarrow> candidate list" where
  "tier1 L syn dir ql candidates [] = candidates"
| "tier1 L syn dir ql candidates (post_id # rest) =
     (case tier1_doc L syn dir ql post_id of
        Inl e \<Rightarrow> tier1 L syn dir ql candidates rest
      | Inr None \<Rightarrow> tier1 L syn dir ql candidates rest
      | Inr (Some c) \<Rightarrow> tier1 L syn dir ql (candidates @ [c]) rest)"

subsection \<open>Tier 2: substring fallback\<close>

fun tier2 :: "pylib \<Rightarrow> parsed_dir \<Rightarrow> pystr \<Rightarrow> candidate list \<Rightarrow> pystr list \<Rightarrow> candidate list" where
  "tier2 L dir ql candidates [] = candidates"
| "tier2 L dir ql candidates (post_id # rest) =
     (case read_parsed dir post_id of
        None \<Rightarrow> tier2 L dir ql candidates rest
      | Some parsed \<Rightarrow>
          (let title = p_title parsed;
               content = strip_html L (p_content parsed)
           in if list_ex (\<lambda>tok. py_in tok (str_lower L content) \<or> py_in tok (str_lower L title))
                   (filter (\<lambda>tok. length tok > 2) (findall_word (re_word L) [] ql))
              then tier2 L dir ql (candidates @ [(1, StrId post_id, title, take 400 content, content)]) rest
              else tier2 L dir ql candidates rest))"

subsection \<open>Tier 3: the who heuristic\<close>

definition who_markers :: "pystr list" where
  "who_markers = [[45572, 44396], [45572, 44032], [45572, 44396, 50556]]"

fun tier3_tokens :: "pylib \<Rightarrow> pystr \<Rightarrow> pystr \<Rightarrow> pystr \<Rightarrow> pystr \<Rightarrow> candidate list \<Rightarrow> pystr list
    \<Rightarrow> candidate list" where
  "tier3_tokens L post_id title writer content candidates [] = candidates"
| "tier3_tokens L post_id title writer content candidates (tok # toks) =
     (let c1 = (if length tok > 1 \<and> py_in tok title
                then candidates @ [(2, StrId post_id, title, take 400 content, content)]
                else candidates);
          c2 = (if length tok > 1 \<and> py_in tok content
                then c1 @ [(1, StrId post_id, title, take 400 content, content)]
                else c1);
          c3 = (if writer \<noteq> [] \<and> py_in tok (str_lower L writer)
                then c2 @ [(3, StrId post_id, title, take 400 content, content)]
                else c2)
      in tier3_tokens L post_id title writer content c3 toks)"

fun tier3 :: "pylib \<Rightarrow> parsed_dir \<Rightarrow> pystr \<Rightarrow> candidate list \<Rightarrow> pystr list \<Rightarrow> candidate list" where
  "tier3 L dir ql candidates [] = candidates"
| "tier3 L dir ql candidates (post_id # rest) =
     (case read_parsed dir post_id of
        None \<Rightarrow> tier3 L dir ql candidates rest
      | Some parsed \<Rightarrow>
          tier3 L dir ql
            (tier3_tokens L post_id (str_lower L (p_title parsed)) (p_writer parsed)
               (str_lower L (strip_html L (p_content parsed))) candidates
               (findall_word (re_word L) [] ql))
            rest)"

subsection \<open>Tiers 4 and 5: the BM25 index\<close>

text \<open>
  Tier 4 reads every item of the index result as \<open>(pid, score)\<close> (the first component is a
  string, so the \<open>isinstance\<close> test takes that branch) and skips a \<open>pid\<close> already chosen.
\<close>

fun tier4_loop :: "pylib \<Rightarrow> parsed_dir \<Rightarrow> candidate list \<Rightarrow> (pystr \<times> real) list \<Rightarrow> candidate list" where
  "tier4_loop L dir chosen [] = chosen"
| "tier4_loop L dir chosen ((pid, sc) # rest) =
     (if list_ex (\<lambda>c. StrId pid = fst (snd c)) chosen then tier4_loop L dir chosen rest
      else case read_parsed dir pid of
             None \<Rightarrow> tier4_loop L dir chosen rest
           | Some parsed \<Rightarrow>
               (let full = strip_html L (p_content parsed) @ [10] @ p_ocr_text parsed
                in tier4_loop L dir (chosen @ [(sc, StrId pid, p_title parsed, take 400 full, full)]) rest))"

definition tier4 :: "pylib \<Rightarrow> search_state \<Rightarrow> pystr \<Rightarrow> int \<Rightarrow> candidate list
    \<Rightarrow> candidate list \<times> search_state" where
  "tier4 L w q need chosen =
     (case search L w q need of
        (Inl e, w') \<Rightarrow> (chosen, w')
      | (Inr bm, w') \<Rightarrow> (tier4_loop L (parsed_files w') chosen bm, w'))"

text \<open>
  Tier 5 unpacks every item with \<open>for score, pid in bm\<close>: \<open>score\<close> is bound to the first
  component (the document id, a string) and \<open>pid\<close> to the second (the index score, a
  float). The file opened is \<open>f"{pid}.json"\<close> for that float, and the candidate's score is
  \<open>float(score)\<close> of that string.
\<close>

fun tier5_loop :: "pylib \<Rightarrow> parsed_dir \<Rightarrow> candidate list \<Rightarrow> (pystr \<times> real) list \<Rightarrow> candidate list" where
  "tier5_loop L dir chosen [] = chosen"
| "tier5_loop L dir chosen ((sc, pid) # rest) =
     (case read_parsed dir (float_str L pid) of
        None \<Rightarrow> tier5_loop L dir chosen rest
      | Some parsed \<Rightarrow>
          (let full = strip_html L (p_content parsed) @ [10] @ p_ocr_text parsed
           in case float_of_str L sc of
                None \<Rightarrow> tier5_loop L dir chosen rest
              | Some x \<Rightarrow>
                  tier5_loop L dir (chosen @ [(x, FloatId pid, p_title parsed, take 400 full, full)]) rest))"

definition tier5 :: "pylib \<Rightarrow> search_state \<Rightarrow> pystr \<Rightarrow> int \<Rightarrow> candidate list
    \<Rightarrow> candidate list \<times> search_state" where
  "tier5 L w q k chosen =
     (case search L w q k of
        (Inl e, w') \<Rightarrow> (chosen, w')
      | (Inr bm, w') \<Rightarrow> (tier5_loop L (parsed_files w') chosen bm, w'))"

text \<open>The retrieval part of \<open>chat\<close>, lines 134 to 252, for the stripped question \<open>q\<close>.\<close>

definition retrieve :: "pylib \<Rightarrow> index_json \<Rightarrow> search_state \<Rightarrow> pystr \<Rightarrow> int
    \<Rightarrow> candidate list \<times> search_state" where
  "retrieve L idx w q k =
     (let ql = str_lower L q;
          ids = map fst idx;
          dir = parsed_files w;
          c1 = tier1 L chat_SYNONYMS dir ql [] ids;
          c2 = (if c1 = [] then tier2 L dir ql c1 ids else c1);
          c3 = (if list_ex (\<lambda>x. py_in x ql) who_markers then tier3 L dir ql c2 ids else c2);
          chosen = py_take k (sorted_desc fst c3);
          (chosen4, w4) = (if int (length chosen) < k
                           then tier4 L w q (k - int (length chosen)) chosen
                           else (chosen, w))
      in if chosen4 = [] then tier5 L w4 q k chosen4 else (chosen4, w4))"

subsection \<open>Excerpts, sources and the rule-based answer\<close>

definition excerpt_of :: "pylib \<Rightarrow> pystr \<Rightarrow> candidate \<Rightarrow> pystr" where
  "excerpt_of L q c =
     (case c of (sc, post_id, title, snippet, full) \<Rightarrow>
        (let sent = extract_relevant_sentences L full q 3
         in if sent \<noteq> [] then py_join [32] sent else snippet))"

definition url_of :: "index_json \<Rightarrow> pyid \<Rightarrow> pystr option" where
  "url_of idx post_id =
     (case post_id of
        StrId p \<Rightarrow> (case map_of idx p of None \<Rightarrow> None | Some url \<Rightarrow> url)
      | FloatId x \<Rightarrow> None)"

definition source_of :: "pylib \<Rightarrow> index_json \<Rightarrow> pystr \<Rightarrow> candidate \<Rightarrow> source" where
  "source_of L idx q c =
     (case c of (sc, post_id, title, snippet, full) \<Rightarrow>
        \<lparr>s_id = post_id, s_title = title, s_url = url_of idx post_id,
         s_score = Some (py_int sc), s_excerpt = Some (excerpt_of L q c)\<rparr>)"

definition part_of :: "pylib \<Rightarrow> pystr \<Rightarrow> candidate \<Rightarrow> pystr" where
  "part_of L q c =
     (case c of (sc, post_id, title, snippet, full) \<Rightarrow> [91] @ title @ [93, 32] @ excerpt_of L q c)"

text \<open>The loop that removes sources with a falsy or repeated url.\<close>

fun dedupe :: "pystr set \<Rightarrow> source list \<Rightarrow> source list \<Rightarrow> source list" where
  "dedupe seen deduped [] = deduped"
| "dedupe seen deduped (s # rest) =
     (case s_url s of
        None \<Rightarrow> dedupe seen deduped rest
      | Some u \<Rightarrow>
          if u = [] then dedupe seen deduped rest
          else if u \<in> seen then dedupe seen deduped rest
          else dedupe (insert u seen) (deduped @ [s]) rest)"

text \<open>Lines 258 to 285: the full deduplicated list and the list shown to the user.\<close>

definition chat_sources :: "pylib \<Rightarrow> index_json \<Rightarrow> pystr \<Rightarrow> candidate list \<Rightarrow> source list \<times> source list" where
  "chat_sources L idx q chosen =
     (let sources = dedupe {} [] (map (source_of L idx q) chosen)
      in (sources, take 2 sources))"

definition not_found_msg :: pystr where
  "not_found_msg = [44288, 47144, 32, 44277, 51648, 47484, 32, 52286, 51648, 32, 47803, 54664,
     49845, 45768, 45796, 46]"

text \<open>
  The result of \<open>chat\<close>: the HTTP 400 error, a JSON reply \<open>{answer, sources, llm}\<close>, or the
  hand-over to the generation service (line 316 on, which talks to an external service and
  is outside the model) with the aggregated text and the deduplicated sources.
\<close>

datatype chat_result =
    HTTP400
  | Reply pystr "source list" bool
  | Generation pystr "source list"

text \<open>The last resort of lines 287 to 303, which again unpacks \<open>score, pid = bm[0]\<close>.\<close>

definition last_resort :: "pylib \<Rightarrow> search_state \<Rightarrow> pystr \<Rightarrow> chat_result \<times> search_state" where
  "last_resort L w q =
     (case search L w q 1 of
        (Inl e, w') \<Rightarrow> (Reply not_found_msg [] False, w')
      | (Inr [], w') \<Rightarrow> (Reply not_found_msg [] False, w')
      | (Inr ((sc, pid) # rest), w') \<Rightarrow>
          (case read_parsed (parsed_files w') (float_str L pid) of
             None \<Rightarrow> (Reply not_found_msg [] False, w')
           | Some parsed \<Rightarrow>
               (let full = strip_html L (p_content parsed) @ [10] @ p_ocr_text parsed
                in (Reply (take 800 full)
                      [\<lparr>s_id = FloatId pid, s_title = p_title parsed, s_url = p_source_url parsed,
                        s_score = None, s_excerpt = None\<rparr>] False, w'))))"

definition chat :: "pylib \<Rightarrow> index_json \<Rightarrow> pystr option \<Rightarrow> search_state \<Rightarrow> chat_request
    \<Rightarrow> chat_result \<times> search_state" where
  "chat L idx openai_key w req =
     (let q = py_strip L (req_question req)
      in if q = [] then (HTTP400, w)
         else (let (chosen, w') = retrieve L idx w q (req_top_k req);
                   answer_parts = map (part_of L q) chosen;
                   (sources, display_sources) = chat_sources L idx q chosen
               in if answer_parts = [] then last_resort L w' q
                  else (let answer_text = py_join [10, 10] answer_parts
                        in if openai_key = None \<or> openai_key = Some []
                           then (Reply (sub_url answer_text) display_sources False, w')
                           else (Generation answer_text sources, w'))))"

section \<open>Reference notions and example data\<close>

text \<open>
  The documents that \<open>build\<close> indexes: the readable files whose name ends in \<open>.json\<close>;
  and the total token count over them, as the specification words it.
\<close>

definition indexed_docs :: "parsed_dir \<Rightarrow> parsed_doc list" where
  "indexed_docs dir = [d. (fname, Some d) \<leftarrow> dir, endswith fname (ustr ''.json'')]"

definition total_tokens :: "pylib \<Rightarrow> parsed_dir \<Rightarrow> nat" where
  "total_tokens L dir = sum_list (map (\<lambda>d. length (tokenize L (doc_text d))) (indexed_docs dir))"

text \<open>
  An instance of the library for ASCII text: letters are lowered, a word character is a
  letter, a digit, an underscore or any code point beyond ASCII, and \<open>float\<close> reads a
  string of decimal digits. The text of a float is fixed to \<open>0.5\<close>: the examples need
  only that it is not the name of a notice, which holds for every text \<open>str\<close> gives a
  float (digits, a point, a sign, an exponent, \<open>inf\<close> or \<open>nan\<close>).
\<close>

definition ascii_lib :: pylib where
  "ascii_lib = \<lparr>str_lower = map (\<lambda>c. if 65 \<le> c \<and> c \<le> 90 then c + 32 else c),
     re_word = (\<lambda>c. (48 \<le> c \<and> c \<le> 57) \<or> (65 \<le> c \<and> c \<le> 90) \<or> c = 95 \<or> (97 \<le> c \<and> c \<le> 122) \<or> 128 \<le> c),
     re_space = (\<lambda>c. c = 32 \<or> (9 \<le> c \<and> c \<le> 13)),
     bs_get_text = sub_tags,
     float_str = (\<lambda>x. ustr ''0.5''),
     float_of_str = (\<lambda>s. if s \<noteq> [] \<and> list_all (\<lambda>c. 48 \<le> c \<and> c \<le> 57) s
                          then Some (real (foldl (\<lambda>a c. 10 * a + (c - 48)) 0 s)) else None)\<rparr>"

definition mk_doc :: "string \<Rightarrow> string \<Rightarrow> parsed_doc" where
  "mk_doc t c = \<lparr>p_title = ustr t, p_content = ustr c, p_ocr_text = [], p_writer = [],
     p_source_url = None\<rparr>"

definition corpus2 :: parsed_dir where
  "corpus2 = [(ustr ''b.json'', Some (mk_doc ''exam'' ''<p>exam hall</p>'')),
              (ustr ''notes.txt'', Some (mk_doc ''exam'' ''ignored'')),
              (ustr ''a.json'', Some (mk_doc ''exam'' ''exam date'')),
              (ustr ''c.json'', None)]"

text \<open>Python's \<open><\<close> on strings: lexicographic by code point.\<close>

fun str_less :: "pystr \<Rightarrow> pystr \<Rightarrow> bool" where
  "str_less [] [] = False"
| "str_less [] (y # ys) = True"
| "str_less (x # xs) [] = False"
| "str_less (x # xs) (y # ys) = (x < y \<or> (x = y \<and> str_less xs ys))"

text \<open>A process that has not yet touched the index, with no snapshot on disk.\<close>

definition world2 :: search_state where
  "world2 = \<lparr>parsed_files = corpus2, bm25_file = Absent, bm25_writable = True,
     global_index = None\<rparr>"

text \<open>
  The Tier 1 score as the specification words it, for a resolved synonym table: three
  times the occurrences of the query in the title plus its occurrences in the body, plus
  for every key contained in the query and each of its variants twice the occurrences in
  the title plus the occurrences in the body, plus for every token longer than one
  character 2 if it is in the title and its occurrences in the body.
\<close>

definition tier1_spec_score :: "(pystr \<times> pystr list) list \<Rightarrow> pystr \<Rightarrow> pystr \<Rightarrow> pystr \<Rightarrow> pystr list \<Rightarrow> nat" where
  "tier1_spec_score table ql title content toks =
     3 * count_sub title ql + count_sub content ql
     + sum_list (map (\<lambda>(key, variants).
          if py_in key ql
          then sum_list (map (\<lambda>v. 2 * count_sub title v + count_sub content v) variants)
          else 0) table)
     + sum_list (map (\<lambda>tok.
          if length tok > 1
          then (if py_in tok title then 2 else 0) + count_sub content tok
          else 0) toks)"

text \<open>One notice whose body holds a raw link, its index entry, and a fresh process.\<close>

definition corpus_n1 :: parsed_dir where
  "corpus_n1 = [(ustr ''n1.json'', Some (mk_doc ''exam'' ''see http://a.b now''))]"

definition idx_n1 :: index_json where
  "idx_n1 = [(ustr ''n1'', Some (ustr ''http://site/n1''))]"

definition world_n1 :: search_state where
  "world_n1 = \<lparr>parsed_files = corpus_n1, bm25_file = Absent, bm25_writable = True,
     global_index = None\<rparr>"

text \<open>Two notices that share the two-letter word \<open>ab\<close>.\<close>

definition corpus_ab :: parsed_dir where
  "corpus_ab = [(ustr ''b.json'', Some (mk_doc ''ab'' ''ab cd'')),
                (ustr ''a.json'', Some (mk_doc ''ab'' ''ab ef''))]"

definition idx_ab :: index_json where
  "idx_ab = [(ustr ''b'', Some (ustr ''http://site/b'')), (ustr ''a'', Some (ustr ''http://site/a''))]"

definition world_ab :: search_state where
  "world_ab = \<lparr>parsed_files = corpus_ab, bm25_file = Absent, bm25_writable = True,
     global_index = None\<rparr>"

text \<open>Three ranked candidates; the first and the third resolve to the same url, the second to none.\<close>

definition idx_dup :: index_json where
  "idx_dup = [(ustr ''p1'', Some (ustr ''http://site/x'')), (ustr ''p2'', None),
              (ustr ''p3'', Some (ustr ''http://site/x'')), (ustr ''p4'', Some (ustr ''http://site/y'')),
              (ustr ''p5'', Some (ustr ''http://site/z''))]"

definition chosen_dup :: "candidate list" where
  "chosen_dup = [(3, StrId (ustr ''p1''), ustr ''t1'', ustr ''s1'', ustr ''s1''),
                 (2, StrId (ustr ''p2''), ustr ''t2'', ustr ''s2'', ustr ''s2''),
                 (2, StrId (ustr ''p3''), ustr ''t3'', ustr ''s3'', ustr ''s3''),
                 (1, StrId (ustr ''p4''), ustr ''t4'', ustr ''s4'', ustr ''s4''),
                 (1, StrId (ustr ''p5''), ustr ''t5'', ustr ''s5'', ustr ''s5'')]"

definition sources_dup :: "source list" where
  "sources_dup =
     [\<lparr>s_id = StrId (ustr ''p1''), s_title = ustr ''t1'', s_url = Some (ustr ''http://site/x''),
       s_score = Some 3, s_excerpt = Some (ustr ''s1'')\<rparr>,
      \<lparr>s_id = StrId (ustr ''p4''), s_title = ustr ''t4'', s_url = Some (ustr ''http://site/y''),
       s_score = Some 1, s_excerpt = Some (ustr ''s4'')\<rparr>,
      \<lparr>s_id = StrId (ustr ''p5''), s_title = ustr ''t5'', s_url = Some (ustr ''http://site/z''),
       s_score = Some 1, s_excerpt = Some (ustr ''s5'')\<rparr>]"

text \<open>A who-question about the word \<open>exam\<close>.\<close>

definition who_exam :: pystr where
  "who_exam = [45572, 44396, 32] @ ustr ''exam''"

section \<open>Properties of the lexical index\<close>

lemma endswith_rev: "endswith s suf = prefix (rev suf) (rev s)"
  by (simp add: endswith_def suffix_to_prefix)

lemma build_loop_counts:
  "snd (build_loop L (self, n, t) files) =
     (n + length [d. (fname, Some d) \<leftarrow> files],
      t + sum_list (map (\<lambda>d. length (tokenize L (doc_text d))) [d. (fname, Some d) \<leftarrow> files]))"
proof (induction files arbitrary: self n t)
  case Nil
  then show ?case by simp
next
  case (Cons a files)
  obtain fname fl where a: "a = (fname, fl)" by (cases a)
  show ?case
  proof (cases fl)
    case None
    then show ?thesis using Cons.IH [of self n t] a by simp
  next
    case (Some d)
    then show ?thesis unfolding a
      by (simp add: Let_def Cons.IH)
  qed
qed

lemma indexed_docs_filter:
  "[d. (fname, Some d) \<leftarrow> filter (\<lambda>(fname, fl). endswith fname suf) dir]
     = [d. (fname, Some d) \<leftarrow> dir, endswith fname suf]"
  by (induction dir) (auto split: option.splits)

lemma build_loop_json:
  assumes "build_loop L (self, 0, 0) (filter (\<lambda>(fname, fl). endswith fname (ustr ''.json'')) dir)
             = (self', n, t)"
  shows "n = length (indexed_docs dir)" and "t = total_tokens L dir"
  using build_loop_counts [of L self 0 0 "filter (\<lambda>(fname, fl). endswith fname (ustr ''.json'')) dir"]
  by (simp_all add: assms indexed_docs_def total_tokens_def indexed_docs_filter)

lemma build_N: "N (build L dir self) = length (indexed_docs dir)"
proof -
  obtain self' n t where
    eq: "build_loop L (self, 0, 0) (filter (\<lambda>(fname, fl). endswith fname (ustr ''.json'')) dir)
           = (self', n, t)"
    by (cases "build_loop L (self, 0, 0) (filter (\<lambda>(fname, fl). endswith fname (ustr ''.json'')) dir)")
  show ?thesis
    using build_loop_json [OF eq] by (simp add: build_def eq)
qed

lemma build_avgdl_total:
  "avgdl (build L dir self) =
     (if length (indexed_docs dir) = 0 then 0
      else real (total_tokens L dir) / real (length (indexed_docs dir)))"
proof -
  obtain self' n t where
    eq: "build_loop L (self, 0, 0) (filter (\<lambda>(fname, fl). endswith fname (ustr ''.json'')) dir)
           = (self', n, t)"
    by (cases "build_loop L (self, 0, 0) (filter (\<lambda>(fname, fl). endswith fname (ustr ''.json'')) dir)")
  show ?thesis
    using build_loop_json [OF eq] by (simp add: build_def eq)
qed

text \<open>
  C6. After \<open>build\<close>, \<open>N\<close> is the number of indexed documents, and \<open>avgdl\<close> is the total
  token count over the indexed documents divided by \<open>N\<close> when \<open>N > 0\<close>, and \<open>0\<close> when
  \<open>N = 0\<close>, whatever the index held before.
\<close>

theorem build_avgdl:
  "N (build L dir self) = length (indexed_docs dir) \<and>
   avgdl (build L dir self) =
     (if N (build L dir self) = 0 then 0
      else real (total_tokens L dir) / real (N (build L dir self)))"
  by (simp add: build_N build_avgdl_total)

lemma corpus2_total: "total_tokens ascii_lib corpus2 = 6"
  by (simp add: total_tokens_def indexed_docs_def corpus2_def endswith_rev ustr_def mk_doc_def
      tokenize_def doc_text_def ascii_lib_def particles_def)

lemma corpus2_indexed: "length (indexed_docs corpus2) = 2"
  by (simp add: indexed_docs_def corpus2_def endswith_rev ustr_def mk_doc_def)

theorem build_avgdl_witness:
  "N (build ascii_lib corpus2 BM25Index_init) = 2 \<and>
   avgdl (build ascii_lib corpus2 BM25Index_init) = 3"
  using build_avgdl [of ascii_lib corpus2 BM25Index_init]
  by (simp add: corpus2_total corpus2_indexed)

subsection \<open>score never fails, and its result is ordered\<close>

lemma idf_term_total:
  "idf_term self t =
     Inr (ln (1 + (real_of_int (int (N self) - int (dict_get0 (df self) t)) + 0.5)
                  / (real (dict_get0 (df self) t) + 0.5)))"
proof -
  let ?d = "real (dict_get0 (df self) t)"
  let ?q = "(real_of_int (int (N self) - int (dict_get0 (df self) t)) + 0.5) / (?d + 0.5)"
  have pos: "0 < ?d + 0.5" by simp
  then have ne: "\<not> (?d + 0.5 = 0)" by linarith
  have "1 + ?q = (real (N self) + 1) / (?d + 0.5)"
    using pos by (simp add: field_simps)
  moreover have "0 < (real (N self) + 1) / (?d + 0.5)"
    using pos by (simp add: add_pos_nonneg)
  ultimately have gt: "\<not> (1 + ?q \<le> 0)" by linarith
  show ?thesis
    by (simp only: idf_term_def Let_def py_truediv_def math_log_def ne gt if_False sum.case)
qed

lemma idf_loop_total: "\<exists>idf'. idf_loop self idf ts = Inr idf'"
  by (induction ts arbitrary: idf) (simp_all add: idf_term_total)

lemma norm_total:
  "\<exists>r. (if avg \<noteq> 0 then py_truediv dl avg else Inr 0) = Inr r"
  by (simp add: py_truediv_def)

lemma term_div_total:
  "\<exists>x. py_truediv y (if denom \<noteq> 0 then denom else 1) = Inr x"
  by (simp add: py_truediv_def)

lemma term_loop_total: "\<exists>s. term_loop k1 b avg idf freqs dl acc ts = Inr s"
proof (induction ts arbitrary: acc)
  case Nil
  then show ?case by simp
next
  case (Cons t ts)
  show ?case
  proof (cases "map_of idf t")
    case None
    then show ?thesis using Cons.IH by simp
  next
    case (Some w)
    obtain r where r: "(if avg \<noteq> 0 then py_truediv (real dl) avg else Inr 0) = Inr r"
      using norm_total by blast
    obtain x where x: "py_truediv (w * (real (dict_get0 freqs t) * (k1 + 1)))
        (if real (dict_get0 freqs t) + k1 * (1 - b + b * r) \<noteq> 0
         then real (dict_get0 freqs t) + k1 * (1 - b + b * r) else 1) = Inr x"
      using term_div_total by blast
    show ?thesis
      using Cons.IH [of "acc + x"] by (simp only: term_loop.simps Some option.case Let_def r x sum.case)
  qed
qed

lemma dict_set_values:
  "\<forall>x \<in> set d. P (snd x) \<Longrightarrow> P v \<Longrightarrow> \<forall>x \<in> set (dict_set k v d). P (snd x)"
  by (induction d) auto

lemma subseq_append_right: "subseq xs (xs @ ys)"
  by (simp add: prefix_imp_subseq)

lemma sorted_neg_rev: "sorted (map (\<lambda>x. - key x) xs) \<Longrightarrow> sorted (rev (map key xs))"
  for key :: "'a \<Rightarrow> real"
  by (induction xs) (auto simp: sorted_append)

lemma dict_set_keys:
  "map fst (dict_set k v d) = (if k \<in> fst ` set d then map fst d else map fst d @ [k])"
  by (induction d) auto

lemma dict_set_length: "length (dict_set k v d) \<le> Suc (length d)"
  by (induction d) auto

lemma doc_loop_total:
  "\<exists>scores'. doc_loop k1 b self idf q scores rest = Inr scores'"
proof (induction rest arbitrary: scores)
  case Nil
  then show ?case by simp
next
  case (Cons a rest)
  obtain pid freqs where a: "a = (pid, freqs)" by (cases a)
  obtain s where s: "term_loop k1 b (avgdl self) idf freqs (dict_get0 (doc_len self) pid) 0 q = Inr s"
    using term_loop_total by blast
  show ?case unfolding a using Cons.IH by (simp add: s)
qed

lemma doc_loop_positive:
  "doc_loop k1 b self idf q scores rest = Inr scores' \<Longrightarrow> \<forall>x \<in> set scores. 0 < snd x
     \<Longrightarrow> \<forall>x \<in> set scores'. 0 < snd x"
proof (induction rest arbitrary: scores)
  case Nil
  then show ?case by simp
next
  case (Cons a rest)
  obtain pid freqs where a: "a = (pid, freqs)" by (cases a)
  obtain s where s: "term_loop k1 b (avgdl self) idf freqs (dict_get0 (doc_len self) pid) 0 q = Inr s"
    using term_loop_total by blast
  let ?sc = "if s > 0 then dict_set pid s scores else scores"
  have run: "doc_loop k1 b self idf q ?sc rest = Inr scores'"
    using Cons.prems(1) unfolding a by (simp add: s)
  have "\<forall>x \<in> set ?sc. 0 < snd x"
    using Cons.prems(2) dict_set_values [of scores "\<lambda>v. 0 < v" s pid] by simp
  then show ?case using Cons.IH [OF run] by blast
qed

lemma doc_loop_keys:
  "doc_loop k1 b self idf q scores rest = Inr scores'
     \<Longrightarrow> subseq (map fst scores') (map fst scores @ map fst rest)"
proof (induction rest arbitrary: scores)
  case Nil
  then show ?case by simp
next
  case (Cons a rest)
  obtain pid freqs where a: "a = (pid, freqs)" by (cases a)
  obtain s where s: "term_loop k1 b (avgdl self) idf freqs (dict_get0 (doc_len self) pid) 0 q = Inr s"
    using term_loop_total by blast
  let ?sc = "if s > 0 then dict_set pid s scores else scores"
  have run: "doc_loop k1 b self idf q ?sc rest = Inr scores'"
    using Cons.prems(1) unfolding a by (simp add: s)
  have "subseq (map fst ?sc) (map fst scores @ [pid])"
    by (simp add: dict_set_keys subseq_append_right)
  then have "subseq (map fst ?sc @ map fst rest) ((map fst scores @ [pid]) @ map fst rest)"
    by (rule list_emb_append_mono) simp
  with Cons.IH [OF run] show ?case unfolding a
    by (simp add: subseq_order.order_trans)
qed

lemma py_take_prefix: "prefix (py_take k xs) xs"
  by (simp add: py_take_def take_is_prefix)

lemma py_take_length: "0 \<le> k \<Longrightarrow> length (py_take k xs) \<le> nat k"
  by (simp add: py_take_def)

lemma sorted_desc_sorted: "sorted (rev (map key (sorted_desc key xs)))"
  by (rule sorted_neg_rev) (simp add: sorted_desc_def)

lemma sorted_desc_stable:
  "filter (\<lambda>x. key x = s) (sorted_desc key xs) = filter (\<lambda>x. key x = s) xs"
  using sort_key_stable [of "\<lambda>x. - key x" "- s" xs] by (simp add: sorted_desc_def)

lemma sorted_prefix: "prefix ys xs \<Longrightarrow> sorted (rev xs) \<Longrightarrow> sorted (rev ys)"
  for xs :: "real list"
  by (auto simp: prefix_def sorted_append)

subsection \<open>The example corpus, evaluated\<close>

lemmas eval_defs = build_def endswith_rev ustr_def mk_doc_def tokenize_def doc_text_def
  ascii_lib_def particles_def dict_incr_def dict_get0_def Let_def

lemma corpus2_build:
  "build ascii_lib corpus2 BM25Index_init =
     \<lparr>N = 2, avgdl = 3, doc_len = [(ustr ''b'', 3), (ustr ''a'', 3)],
      tf = [(ustr ''b'', [(ustr ''exam'', 2), (ustr ''hall'', 1)]),
            (ustr ''a'', [(ustr ''exam'', 2), (ustr ''date'', 1)])],
      df = [(ustr ''exam'', 2), (ustr ''hall'', 1), (ustr ''date'', 1)],
      docs = [(ustr ''b'', ustr ''exam''), (ustr ''a'', ustr ''exam'')]\<rparr>"
  by (simp add: eval_defs corpus2_def BM25Index_init_def)

lemma corpus2_score:
  "score ascii_lib (build ascii_lib corpus2 BM25Index_init) (ustr ''exam'') 1.5 0.75 top_k =
     Inr (py_take top_k [(ustr ''b'', 10 * ln (6 / 5) / 7), (ustr ''a'', 10 * ln (6 / 5) / 7)])"
  unfolding corpus2_build
  by (simp add: score_def idf_term_def py_truediv_def math_log_def sorted_desc_def
      ustr_def tokenize_def ascii_lib_def particles_def dict_get0_def Let_def)

lemma score_shape:
  "\<exists>scores. score L self query k1 b top_k = Inr (py_take top_k (sorted_desc snd scores)) \<and>
     (\<forall>x \<in> set scores. 0 < snd x) \<and> subseq (map fst scores) (map fst (tf self))"
proof (cases "filter (\<lambda>t. length t > 0) (tokenize L query) = [] \<or> N self = 0")
  case True
  have "score L self query k1 b top_k = Inr (py_take top_k (sorted_desc snd []))"
    using True by (simp add: score_def Let_def py_take_def sorted_desc_def)
  then show ?thesis by (intro exI [of _ "[]"]) simp
next
  case False
  let ?q = "filter (\<lambda>t. length t > 0) (tokenize L query)"
  obtain idf where idf: "idf_loop self [] (remdups ?q) = Inr idf"
    using idf_loop_total by blast
  obtain scores where sc: "doc_loop k1 b self idf ?q [] (tf self) = Inr scores"
    using doc_loop_total by blast
  have "score L self query k1 b top_k = Inr (py_take top_k (sorted_desc snd scores))"
    using False idf sc by (simp add: score_def Let_def)
  moreover have "\<forall>x \<in> set scores. 0 < snd x"
    using doc_loop_positive [OF sc] by simp
  moreover have "subseq (map fst scores) (map fst (tf self))"
    using doc_loop_keys [OF sc] by simp
  ultimately show ?thesis by blast
qed

lemma set_py_take: "set (py_take k xs) \<subseteq> set xs"
  by (auto simp: py_take_def dest: in_set_takeD)

lemma zero_avgdl_term:
  "term_loop k1 b 0 idf freqs dl acc [t] =
     Inr (case map_of idf t of
            None \<Rightarrow> acc
          | Some w \<Rightarrow>
              acc + w * (real (dict_get0 freqs t) * (k1 + 1))
                / (if real (dict_get0 freqs t) + k1 * (1 - b) \<noteq> 0
                   then real (dict_get0 freqs t) + k1 * (1 - b) else 1))"
  by (simp add: py_truediv_def Let_def split: option.splits)

text \<open>
  C10 (amended). \<open>score\<close> returns a result for every index state, query and \<open>top_k\<close>: no
  division by zero and no other exception is raised. Every returned entry has a strictly
  positive score, and for \<open>top_k \<ge> 0\<close> at most \<open>top_k\<close> entries are returned. When \<open>avgdl\<close>
  is \<open>0\<close> the term \<open>dl / avgdl\<close> is taken as \<open>0\<close>, and a zero denominator is replaced by
  \<open>1\<close>.
\<close>

theorem score_total:
  "(\<exists>items. score L self query k1 b top_k = Inr items \<and>
      (\<forall>x \<in> set items. 0 < snd x) \<and>
      (0 \<le> top_k \<longrightarrow> int (length items) \<le> top_k)) \<and>
   term_loop k1 b 0 idf freqs dl acc [t] =
     Inr (case map_of idf t of
            None \<Rightarrow> acc
          | Some w \<Rightarrow>
              acc + w * (real (dict_get0 freqs t) * (k1 + 1))
                / (if real (dict_get0 freqs t) + k1 * (1 - b) \<noteq> 0
                   then real (dict_get0 freqs t) + k1 * (1 - b) else 1))"
proof -
  obtain scores where
    eq: "score L self query k1 b top_k = Inr (py_take top_k (sorted_desc snd scores))" and
    pos: "\<forall>x \<in> set scores. 0 < snd x"
    using score_shape by blast
  have "set (py_take top_k (sorted_desc snd scores)) \<subseteq> set scores"
    using set_py_take [of top_k "sorted_desc snd scores"] by (simp add: sorted_desc_def)
  then have "\<forall>x \<in> set (py_take top_k (sorted_desc snd scores)). 0 < snd x"
    using pos by blast
  moreover have "0 \<le> top_k \<longrightarrow> int (length (py_take top_k (sorted_desc snd scores))) \<le> top_k"
    using py_take_length [of top_k "sorted_desc snd scores"] by auto
  ultimately show ?thesis
    using eq zero_avgdl_term by blast
qed

text \<open>The amended C10 on the example corpus, with \<open>top_k = 1\<close>.\<close>

theorem score_total_witness:
  "score ascii_lib (build ascii_lib corpus2 BM25Index_init) (ustr ''exam'') 1.5 0.75 1 =
     Inr [(ustr ''b'', 10 * ln (6 / 5) / 7)] \<and>
   0 < 10 * ln (6 / 5 :: real) / 7 \<and>
   term_loop 1.5 0.75 0 [(ustr ''exam'', 1)] [(ustr ''exam'', 2)] 3 0 [ustr ''exam''] = Inr (40 / 19)"
  using score_total [of ascii_lib "build ascii_lib corpus2 BM25Index_init" "ustr ''exam''"
      "1.5" "0.75" 1 "[(ustr ''exam'', 1)]" "[(ustr ''exam'', 2)]" 3 0 "ustr ''exam''"]
    corpus2_score [of 1]
  by (simp add: py_take_def dict_get0_def)

text \<open>
  C10 as stated fails for a negative \<open>top_k\<close>: the slice \<open>[:-1]\<close> drops the last entry
  only, so one entry is returned although \<open>top_k = -1\<close>.
\<close>

theorem score_negative_top_k:
  "score ascii_lib (build ascii_lib corpus2 BM25Index_init) (ustr ''exam'') 1.5 0.75 (- 1) =
     Inr [(ustr ''b'', 10 * ln (6 / 5) / 7)] \<and>
   \<not> int (length [(ustr ''b'', 10 * ln (6 / 5 :: real) / 7)]) \<le> - 1"
  using corpus2_score [of "- 1"] by (simp add: py_take_def)

text \<open>
  C3 (amended). The list returned by \<open>score\<close> is sorted non-increasing by score, and
  entries with equal scores keep the order in which their documents occur in the \<open>tf\<close>
  table of the index (the sort is stable and has no second key).
\<close>

theorem score_sorted:
  assumes "score L self query k1 b top_k = Inr items"
  shows "sorted (rev (map snd items)) \<and>
         (\<forall>s. subseq (map fst (filter (\<lambda>x. snd x = s) items)) (map fst (tf self)))"
proof -
  obtain scores where
    eq: "score L self query k1 b top_k = Inr (py_take top_k (sorted_desc snd scores))" and
    keys: "subseq (map fst scores) (map fst (tf self))"
    using score_shape by blast
  have items: "items = py_take top_k (sorted_desc snd scores)"
    using assms eq by simp
  have pre: "prefix items (sorted_desc snd scores)"
    unfolding items by (rule py_take_prefix)
  then have "prefix (map snd items) (map snd (sorted_desc snd scores))"
    by (rule map_mono_prefix)
  then have ord: "sorted (rev (map snd items))"
    using sorted_desc_sorted [of snd scores] by (rule sorted_prefix)
  have tie: "subseq (map fst (filter (\<lambda>x. snd x = s) items)) (map fst (tf self))" for s
  proof -
    have "subseq (filter (\<lambda>x. snd x = s) items) (filter (\<lambda>x. snd x = s) (sorted_desc snd scores))"
      using pre by (simp add: prefix_imp_subseq)
    then have "subseq (filter (\<lambda>x. snd x = s) items) (filter (\<lambda>x. snd x = s) scores)"
      by (simp add: sorted_desc_stable)
    then have "subseq (filter (\<lambda>x. snd x = s) items) scores"
      using subseq_filter_left subseq_order.order_trans by blast
    then have "subseq (map fst (filter (\<lambda>x. snd x = s) items)) (map fst scores)"
      by (rule subseq_map)
    then show ?thesis
      using keys subseq_order.order_trans by blast
  qed
  show ?thesis using ord tie by blast
qed


text \<open>The amended C3 on the example corpus.\<close>

theorem score_sorted_witness:
  "score ascii_lib (build ascii_lib corpus2 BM25Index_init) (ustr ''exam'') 1.5 0.75 5 =
     Inr [(ustr ''b'', 10 * ln (6 / 5) / 7), (ustr ''a'', 10 * ln (6 / 5) / 7)] \<and>
   sorted (rev [10 * ln (6 / 5) / 7, 10 * ln (6 / 5 :: real) / 7]) \<and>
   subseq [ustr ''b'', ustr ''a''] (map fst (tf (build ascii_lib corpus2 BM25Index_init)))"
proof -
  have run: "score ascii_lib (build ascii_lib corpus2 BM25Index_init) (ustr ''exam'') 1.5 0.75 5 =
     Inr [(ustr ''b'', 10 * ln (6 / 5) / 7), (ustr ''a'', 10 * ln (6 / 5) / 7)]"
    using corpus2_score [of 5] by (simp add: py_take_def)
  show ?thesis
    using score_sorted [OF run] run
    by (auto dest: spec [of _ "10 * ln (6 / 5) / 7"])
qed

text \<open>
  C3 as stated fails: the two documents of the example corpus score the same, and the
  result lists \<open>b\<close> before \<open>a\<close>, the order of the directory listing.
\<close>

theorem score_tie_order:
  "score ascii_lib (build ascii_lib corpus2 BM25Index_init) (ustr ''exam'') 1.5 0.75 5 =
     Inr [(ustr ''b'', 10 * ln (6 / 5) / 7), (ustr ''a'', 10 * ln (6 / 5) / 7)] \<and>
   str_less (ustr ''a'') (ustr ''b'')"
  using corpus2_score [of 5] by (simp add: py_take_def ustr_def)

text \<open>
  C5. \<open>build\<close> resets \<open>N\<close> and \<open>avgdl\<close> but adds to the \<open>df\<close> that the index object
  already holds: a second call on the same object over the same corpus doubles every
  document frequency.
\<close>

theorem build_twice_df:
  "df (build ascii_lib corpus2 BM25Index_init) =
     [(ustr ''exam'', 2), (ustr ''hall'', 1), (ustr ''date'', 1)] \<and>
   df (build ascii_lib corpus2 (build ascii_lib corpus2 BM25Index_init)) =
     [(ustr ''exam'', 4), (ustr ''hall'', 2), (ustr ''date'', 2)]"
proof
  show "df (build ascii_lib corpus2 BM25Index_init) =
     [(ustr ''exam'', 2), (ustr ''hall'', 1), (ustr ''date'', 1)]"
    by (simp add: corpus2_build)
  show "df (build ascii_lib corpus2 (build ascii_lib corpus2 BM25Index_init)) =
     [(ustr ''exam'', 4), (ustr ''hall'', 2), (ustr ''date'', 2)]"
    unfolding corpus2_build by (simp add: eval_defs corpus2_def)
qed

subsection \<open>The index before its first use\<close>

lemma score_init: "score L BM25Index_init query k1 b top_k = Inr []"
  by (simp add: score_def BM25Index_init_def Let_def)

lemma get_index_first:
  assumes "global_index w = None" and "bm25_file w \<noteq> Corrupt"
  shows "\<exists>w'. get_index L w =
           (Inr (case bm25_file w of Snapshot d \<Rightarrow> d
                 | _ \<Rightarrow> build L (parsed_files w) BM25Index_init), w') \<and>
         global_index w' =
           Some (case bm25_file w of Snapshot d \<Rightarrow> d
                 | _ \<Rightarrow> build L (parsed_files w) BM25Index_init)"
  using assms
  by (cases "bm25_file w") (auto simp: get_index_def load_def save_def Let_def)

lemma get_index_cached: "global_index w = Some idx \<Longrightarrow> get_index L w = (Inr idx, w)"
  by (simp add: get_index_def)

text \<open>
  C7 (amended). \<open>score\<close> on an index that was never built or loaded returns the empty
  list; it does not fail. Callers obtain the index through \<open>get_index\<close>, which on first
  use loads the snapshot or, when there is none, builds the index from the parsed
  directory, and which answers every later call from the cached object.
\<close>

theorem score_before_build:
  "score L BM25Index_init query k1 b top_k = Inr [] \<and>
   (global_index w = None \<and> bm25_file w \<noteq> Corrupt \<longrightarrow>
      (\<exists>w'. get_index L w =
           (Inr (case bm25_file w of Snapshot d \<Rightarrow> d
                 | _ \<Rightarrow> build L (parsed_files w) BM25Index_init), w') \<and>
         get_index L w' = get_index L w))"
proof -
  have "\<exists>w'. get_index L w =
           (Inr (case bm25_file w of Snapshot d \<Rightarrow> d
                 | _ \<Rightarrow> build L (parsed_files w) BM25Index_init), w') \<and>
         get_index L w' = get_index L w"
    if unset: "global_index w = None" and ok: "bm25_file w \<noteq> Corrupt"
  proof -
    obtain w' where
      first: "get_index L w =
           (Inr (case bm25_file w of Snapshot d \<Rightarrow> d
                 | _ \<Rightarrow> build L (parsed_files w) BM25Index_init), w')" and
      cached: "global_index w' =
           Some (case bm25_file w of Snapshot d \<Rightarrow> d
                 | _ \<Rightarrow> build L (parsed_files w) BM25Index_init)"
      using get_index_first [OF unset ok] by blast
    show ?thesis
      using first get_index_cached [OF cached, of L] by simp
  qed
  then show ?thesis using score_init by blast
qed

text \<open>The amended C7 on a process with the example corpus and no snapshot.\<close>

theorem score_before_build_witness:
  "score ascii_lib BM25Index_init (ustr ''exam'') 1.5 0.75 5 = Inr [] \<and>
   global_index world2 = None \<and> bm25_file world2 \<noteq> Corrupt \<and>
   fst (get_index ascii_lib world2) = Inr (build ascii_lib corpus2 BM25Index_init) \<and>
   get_index ascii_lib (snd (get_index ascii_lib world2)) = get_index ascii_lib world2"
  using score_before_build [of ascii_lib "ustr ''exam''" "1.5" "0.75" 5 world2]
  by (auto simp: world2_def)

text \<open>C7 as stated fails: a fresh index answers a query with \<open>[]\<close>, not with an error.\<close>

theorem score_fresh_index_empty:
  "score ascii_lib BM25Index_init (ustr ''exam'') 1.5 0.75 5 = Inr []"
  by (simp add: score_def BM25Index_init_def Let_def)

section \<open>Properties of the chat retrieval\<close>

lemma variant_loop_sum:
  "variant_loop title content s vs =
     s + sum_list (map (\<lambda>v. 2 * count_sub title v + count_sub content v) vs)"
  by (induction vs arbitrary: s) simp_all

lemma synonym_loop_sum:
  "synonym_loop ql title content s table =
     s + sum_list (map (\<lambda>(key, variants).
          if py_in key ql
          then sum_list (map (\<lambda>v. 2 * count_sub title v + count_sub content v) variants)
          else 0) table)"
  by (induction table arbitrary: s) (auto simp: variant_loop_sum)

lemma token_loop_sum:
  "token_loop title content s toks =
     s + sum_list (map (\<lambda>tok.
          if length tok > 1
          then (if py_in tok title then 2 else 0) + count_sub content tok
          else 0) toks)"
  by (induction toks arbitrary: s) auto

lemma tier1_resolved_score:
  "token_loop title content
     (synonym_loop ql title content (count_sub title ql * 3 + count_sub content ql) table) toks
   = tier1_spec_score table ql title content toks"
  by (simp add: token_loop_sum synonym_loop_sum tier1_spec_score_def)

lemma tier1_doc_unresolved: "\<exists>e. tier1_doc L None dir ql post_id = Inl e"
  by (simp add: tier1_doc_def Let_def split: option.splits)

lemma tier1_unresolved: "tier1 L None dir ql candidates ids = candidates"
proof (induction ids)
  case Nil
  then show ?case by simp
next
  case (Cons post_id ids)
  obtain e where "tier1_doc L None dir ql post_id = Inl e"
    using tier1_doc_unresolved by blast
  then show ?case using Cons.IH by simp
qed

lemma tier2_extends: "prefix candidates (tier2 L dir ql candidates ids)"
proof (induction ids arbitrary: candidates)
  case Nil
  then show ?case by simp
next
  case (Cons post_id ids)
  have step: "prefix candidates (tier2 L dir ql (candidates @ [c]) ids)" for c
    using Cons.IH [of "candidates @ [c]"] by (meson append_prefixD)
  show ?case
    using Cons.IH [of candidates] step by (simp add: Let_def split: option.splits)
qed

lemma tier3_tokens_extends:
  "prefix candidates (tier3_tokens L post_id title writer content candidates toks)"
proof (induction toks arbitrary: candidates)
  case Nil
  then show ?case by simp
next
  case (Cons tok toks)
  let ?c1 = "(if length tok > 1 \<and> py_in tok title
                then candidates @ [(2, StrId post_id, title, take 400 content, content)]
                else candidates)"
  let ?c2 = "(if length tok > 1 \<and> py_in tok content
                then ?c1 @ [(1, StrId post_id, title, take 400 content, content)]
                else ?c1)"
  let ?c3 = "(if writer \<noteq> [] \<and> py_in tok (str_lower L writer)
                then ?c2 @ [(3, StrId post_id, title, take 400 content, content)]
                else ?c2)"
  have "prefix candidates ?c1" by simp
  moreover have "prefix ?c1 ?c2" by simp
  moreover have "prefix ?c2 ?c3" by simp
  moreover have "prefix ?c3 (tier3_tokens L post_id title writer content ?c3 toks)"
    by (rule Cons.IH)
  ultimately have "prefix candidates (tier3_tokens L post_id title writer content ?c3 toks)"
    by (meson prefix_order.order_trans)
  then show ?case by (simp only: tier3_tokens.simps Let_def)
qed

lemma tier3_extends: "prefix candidates (tier3 L dir ql candidates ids)"
proof (induction ids arbitrary: candidates)
  case Nil
  then show ?case by simp
next
  case (Cons post_id ids)
  show ?case
  proof (cases "read_parsed dir post_id")
    case None
    then show ?thesis using Cons.IH by simp
  next
    case (Some parsed)
    let ?c = "tier3_tokens L post_id (str_lower L (p_title parsed)) (p_writer parsed)
               (str_lower L (strip_html L (p_content parsed))) candidates
               (findall_word (re_word L) [] ql)"
    have "prefix candidates ?c" by (rule tier3_tokens_extends)
    moreover have "prefix ?c (tier3 L dir ql ?c ids)" by (rule Cons.IH)
    ultimately show ?thesis using Some by (simp add: prefix_order.order_trans)
  qed
qed

lemma tier4_loop_adds:
  "\<exists>added. tier4_loop L dir chosen bm = chosen @ added \<and>
     distinct (map (fst \<circ> snd) added) \<and>
     (\<forall>c \<in> set added. fst (snd c) \<notin> (fst \<circ> snd) ` set chosen)"
proof (induction bm arbitrary: chosen)
  case Nil
  then show ?case by simp
next
  case (Cons item bm)
  obtain pid sc where item: "item = (pid, sc)" by (cases item)
  show ?case
  proof (cases "list_ex (\<lambda>c. StrId pid = fst (snd c)) chosen")
    case True
    then show ?thesis using Cons.IH [of chosen] item by simp
  next
    case absent: False
    show ?thesis
    proof (cases "read_parsed dir pid")
      case None
      then show ?thesis using Cons.IH [of chosen] item absent by simp
    next
      case (Some parsed)
      let ?full = "strip_html L (p_content parsed) @ [10] @ p_ocr_text parsed"
      let ?c = "(sc, StrId pid, p_title parsed, take 400 ?full, ?full)"
      obtain added where
        eq: "tier4_loop L dir (chosen @ [?c]) bm = (chosen @ [?c]) @ added" and
        dist: "distinct (map (fst \<circ> snd) added)" and
        new: "\<forall>c \<in> set added. fst (snd c) \<notin> (fst \<circ> snd) ` set (chosen @ [?c])"
        using Cons.IH [of "chosen @ [?c]"] by blast
      have run: "tier4_loop L dir chosen (item # bm) = chosen @ (?c # added)"
        using item absent Some eq by (simp add: Let_def)
      have fresh: "StrId pid \<notin> (fst \<circ> snd) ` set chosen"
        using absent by (auto simp: list_ex_iff)
      have "distinct (map (fst \<circ> snd) (?c # added))"
        using dist new by auto
      moreover have "\<forall>c \<in> set (?c # added). fst (snd c) \<notin> (fst \<circ> snd) ` set chosen"
        using new fresh by auto
      ultimately show ?thesis using run by blast
    qed
  qed
qed

lemma tier5_loop_extends: "prefix chosen (tier5_loop L dir chosen bm)"
proof (induction bm arbitrary: chosen)
  case Nil
  then show ?case by simp
next
  case (Cons item bm)
  have step: "prefix chosen (tier5_loop L dir (chosen @ [c]) bm)" for c
    using Cons.IH [of "chosen @ [c]"] by (meson append_prefixD)
  show ?case
    using Cons.IH [of chosen] step by (cases item) (simp add: Let_def split: option.splits)
qed

lemma tier5_loop_ids:
  "\<forall>c \<in> set chosen. \<exists>x. fst (snd c) = FloatId x
     \<Longrightarrow> \<forall>c \<in> set (tier5_loop L dir chosen bm). \<exists>x. fst (snd c) = FloatId x"
proof (induction bm arbitrary: chosen)
  case Nil
  then show ?case by simp
next
  case (Cons item bm)
  obtain a b where item: "item = (a, b)" by (cases item)
  show ?case unfolding item
    using Cons.IH [of chosen] Cons.prems
    by (auto simp: Let_def split: option.splits intro!: Cons.IH)
qed

lemma tier5_loop_no_file:
  "\<forall>item \<in> set bm. read_parsed dir (float_str L (snd item)) = None
     \<Longrightarrow> tier5_loop L dir chosen bm = chosen"
  by (induction bm arbitrary: chosen) auto

subsection \<open>Source aggregation\<close>

lemma dedupe_app: "dedupe seen deduped srcs = deduped @ dedupe seen [] srcs"
proof (induction srcs arbitrary: seen deduped)
  case Nil
  then show ?case by simp
next
  case (Cons s srcs)
  show ?case
    using Cons.IH [of seen deduped] Cons.IH [of "insert (the (s_url s)) seen" "deduped @ [s]"]
      Cons.IH [of "insert (the (s_url s)) seen" "[s]"]
    by (auto split: option.splits)
qed

lemma dedupe_Cons:
  "dedupe seen [] (s # srcs) =
     (case s_url s of
        None \<Rightarrow> dedupe seen [] srcs
      | Some u \<Rightarrow> if u = [] \<or> u \<in> seen then dedupe seen [] srcs
                  else s # dedupe (insert u seen) [] srcs)"
  using dedupe_app [of "insert (the (s_url s)) seen" "[s]" srcs]
  by (auto split: option.splits)

lemma dedupe_subseq: "subseq (dedupe seen [] srcs) srcs"
  by (induction srcs arbitrary: seen) (auto simp: dedupe_Cons simp del: dedupe.simps(2) split: option.splits)

lemma dedupe_urls:
  "s \<in> set (dedupe seen [] srcs) \<Longrightarrow> \<exists>u. s_url s = Some u \<and> u \<noteq> [] \<and> u \<notin> seen"
proof (induction srcs arbitrary: seen)
  case Nil
  then show ?case by simp
next
  case (Cons a srcs)
  then show ?case
    by (fastforce simp: dedupe_Cons simp del: dedupe.simps(2) split: option.splits if_splits)
qed

lemma dedupe_distinct: "distinct (map s_url (dedupe seen [] srcs))"
proof (induction srcs arbitrary: seen)
  case Nil
  then show ?case by simp
next
  case (Cons a srcs)
  show ?case
  proof (cases "s_url a")
    case None
    then show ?thesis using Cons.IH by (simp add: dedupe_Cons del: dedupe.simps(2))
  next
    case (Some u)
    have "Some u \<notin> s_url ` set (dedupe (insert u seen) [] srcs)"
      using dedupe_urls [of _ "insert u seen" srcs] by fastforce
    then show ?thesis using Some Cons.IH by (simp add: dedupe_Cons del: dedupe.simps(2))
  qed
qed

lemma dedupe_first:
  "filter (\<lambda>s. s_url s = Some u) (dedupe seen [] srcs) =
     (if u = [] \<or> u \<in> seen then [] else take 1 (filter (\<lambda>s. s_url s = Some u) srcs))"
proof (induction srcs arbitrary: seen)
  case Nil
  then show ?case by simp
next
  case (Cons a srcs)
  show ?case
  proof (cases "s_url a")
    case None
    then show ?thesis using Cons.IH [of seen] by (simp add: dedupe_Cons del: dedupe.simps(2))
  next
    case (Some v)
    then show ?thesis
      using Cons.IH [of seen] Cons.IH [of "insert v seen"]
      by (auto simp: dedupe_Cons simp del: dedupe.simps(2))
  qed
qed

lemma source_of_id: "s_id (source_of L idx q c) = fst (snd c)"
  by (cases c) (simp add: source_of_def)

text \<open>
  C8. The sources are assembled from the chosen candidates in rank order. The
  deduplicated list is a subsequence of them (rank order is kept), holds no entry with a
  missing or empty url, holds no url twice, and for every non-empty url holds exactly the
  first (highest-ranked) entry with that url. The list shown to the user is the first two
  entries of the deduplicated list, which is itself kept in full.
\<close>

theorem sources_deduplicated:
  "chat_sources L idx q chosen = (sources, display) \<Longrightarrow>
     map s_id (map (source_of L idx q) chosen) = map (fst \<circ> snd) chosen \<and>
     subseq sources (map (source_of L idx q) chosen) \<and>
     (\<forall>s \<in> set sources. s_url s \<noteq> None \<and> s_url s \<noteq> Some []) \<and>
     distinct (map s_url sources) \<and>
     (\<forall>u. u \<noteq> [] \<longrightarrow>
        filter (\<lambda>s. s_url s = Some u) sources =
          take 1 (filter (\<lambda>s. s_url s = Some u) (map (source_of L idx q) chosen))) \<and>
     display = take 2 sources \<and> length display \<le> 2"
proof -
  assume run: "chat_sources L idx q chosen = (sources, display)"
  let ?all = "map (source_of L idx q) chosen"
  have src: "sources = dedupe {} [] ?all" and disp: "display = take 2 sources"
    using run by (auto simp: chat_sources_def Let_def)
  have "\<forall>s \<in> set sources. s_url s \<noteq> None \<and> s_url s \<noteq> Some []"
    using dedupe_urls [of _ "{}" ?all] unfolding src by fastforce
  moreover have "\<forall>u. u \<noteq> [] \<longrightarrow>
        filter (\<lambda>s. s_url s = Some u) sources = take 1 (filter (\<lambda>s. s_url s = Some u) ?all)"
    unfolding src by (simp add: dedupe_first)
  moreover have "map s_id ?all = map (fst \<circ> snd) chosen"
    by (simp add: source_of_id)
  ultimately show ?thesis
    using dedupe_subseq [of "{}" ?all] dedupe_distinct [of "{}" ?all] disp src by simp
qed

subsection \<open>The rule-based answer\<close>

lemma match_url_backslash: "92 \<notin> set s \<Longrightarrow> match_url s = None"
proof -
  assume no: "92 \<notin> set s"
  have "\<not> prefix [58, 92, 47, 92, 47, 92] (drop n (drop 4 s))" for n
  proof
    assume "prefix [58, 92, 47, 92, 47, 92] (drop n (drop 4 s))"
    then have "92 \<in> set (drop n (drop 4 s))"
      by (auto simp: prefix_def)
    then have "92 \<in> set s"
      by (meson in_set_dropD)
    with no show False by simp
  qed
  then show ?thesis by (simp add: match_url_def Let_def)
qed

lemma sub_url_backslash: "92 \<notin> set s \<Longrightarrow> sub_url s = s"
  unfolding sub_url_def
  by (induction s) (simp_all add: match_url_backslash)

subsection \<open>The examples, evaluated\<close>

lemmas lib_defs = ascii_lib_def ustr_def mk_doc_def particles_def

lemmas chat_defs = read_parsed_def strip_html_def extract_relevant_sentences_def
  source_of_def url_of_def excerpt_of_def part_of_def py_int_def py_strip_def py_take_def
  sorted_desc_def Let_def

lemma chat_sources_dup:
  "chat_sources ascii_lib idx_dup (ustr ''zz'') chosen_dup = (sources_dup, take 2 sources_dup)"
  by (simp add: chat_sources_def idx_dup_def chosen_dup_def sources_dup_def chat_defs lib_defs)

text \<open>C8 on three ranked candidates with a repeated and a missing url.\<close>

theorem sources_deduplicated_witness:
  "chat_sources ascii_lib idx_dup (ustr ''zz'') chosen_dup = (sources_dup, take 2 sources_dup) \<and>
   subseq sources_dup (map (source_of ascii_lib idx_dup (ustr ''zz'')) chosen_dup) \<and>
   distinct (map s_url sources_dup) \<and>
   length (take 2 sources_dup) \<le> 2"
  using sources_deduplicated [OF chat_sources_dup] chat_sources_dup by simp

lemma tier2_who:
  "tier2 ascii_lib corpus_n1 who_exam [] [ustr ''n1''] =
     [(1, StrId (ustr ''n1''), ustr ''exam'', ustr ''see http://a.b now'', ustr ''see http://a.b now'')]"
  by (simp add: who_exam_def corpus_n1_def chat_defs lib_defs)

lemma tier3_who:
  "tier3 ascii_lib corpus_n1 who_exam
     [(1, StrId (ustr ''n1''), ustr ''exam'', ustr ''see http://a.b now'', ustr ''see http://a.b now'')]
     [ustr ''n1''] =
     [(1, StrId (ustr ''n1''), ustr ''exam'', ustr ''see http://a.b now'', ustr ''see http://a.b now''),
      (2, StrId (ustr ''n1''), ustr ''exam'', ustr ''see http://a.b now'', ustr ''see http://a.b now'')]"
  by (simp add: who_exam_def corpus_n1_def chat_defs lib_defs)

lemma build_n1:
  "build ascii_lib corpus_n1 BM25Index_init =
     \<lparr>N = 1, avgdl = 6, doc_len = [(ustr ''n1'', 6)],
      tf = [(ustr ''n1'', [(ustr ''exam'', 1), (ustr ''see'', 1), (ustr ''http'', 1), (ustr ''a'', 1),
                          (ustr ''b'', 1), (ustr ''now'', 1)])],
      df = [(ustr ''exam'', 1), (ustr ''see'', 1), (ustr ''http'', 1), (ustr ''a'', 1),
            (ustr ''b'', 1), (ustr ''now'', 1)],
      docs = [(ustr ''n1'', ustr ''exam'')]\<rparr>"
  by (simp add: eval_defs corpus_n1_def BM25Index_init_def)

lemma search_fresh:
  assumes "global_index w = None" and "bm25_file w = Absent"
  shows "fst (search L w q k) = score L (build L (parsed_files w) BM25Index_init) q 1.5 0.75 k"
    and "parsed_files (snd (search L w q k)) = parsed_files w"
    and "global_index (snd (search L w q k)) = Some (build L (parsed_files w) BM25Index_init)"
  using assms by (simp_all add: search_def get_index_def load_def save_def Let_def)

lemma search_cached:
  "global_index w = Some idx \<Longrightarrow> search L w q k = (score L idx q 1.5 0.75 k, w)"
  by (simp add: search_def get_index_def)

lemma tier4_fst:
  "fst (tier4 L w q need chosen) =
     (case fst (search L w q need) of
        Inl e \<Rightarrow> chosen
      | Inr bm \<Rightarrow> tier4_loop L (parsed_files (snd (search L w q need))) chosen bm)"
  by (simp add: tier4_def split: prod.splits sum.splits)

lemma tier4_snd: "snd (tier4 L w q need chosen) = snd (search L w q need)"
  by (simp add: tier4_def split: prod.splits sum.splits)

lemma tier5_fst:
  "fst (tier5 L w q k chosen) =
     (case fst (search L w q k) of
        Inl e \<Rightarrow> chosen
      | Inr bm \<Rightarrow> tier5_loop L (parsed_files (snd (search L w q k))) chosen bm)"
  by (simp add: tier5_def split: prod.splits sum.splits)

lemma tier5_snd: "snd (tier5 L w q k chosen) = snd (search L w q k)"
  by (simp add: tier5_def split: prod.splits sum.splits)

lemma score_n1:
  "score ascii_lib (build ascii_lib corpus_n1 BM25Index_init) (ustr ''exam'') 1.5 0.75 4 =
     Inr [(ustr ''n1'', ln (4 / 3))]"
  unfolding build_n1
  by (simp add: score_def idf_term_def py_truediv_def math_log_def sorted_desc_def py_take_def
      ustr_def tokenize_def ascii_lib_def particles_def dict_get0_def Let_def)

lemma tier2_n1:
  "tier2 ascii_lib corpus_n1 (ustr ''exam'') [] [ustr ''n1''] =
     [(1, StrId (ustr ''n1''), ustr ''exam'', ustr ''see http://a.b now'', ustr ''see http://a.b now'')]"
  by (simp add: corpus_n1_def chat_defs lib_defs)

lemma retrieve_eval:
  assumes "tier2 L (parsed_files w) (str_lower L q) [] (map fst idx) = c2"
    and "(if list_ex (\<lambda>x. py_in x (str_lower L q)) who_markers
          then tier3 L (parsed_files w) (str_lower L q) c2 (map fst idx) else c2) = c3"
    and "py_take k (sorted_desc fst c3) = chosen"
    and "(if int (length chosen) < k then tier4 L w q (k - int (length chosen)) chosen
          else (chosen, w)) = r4"
  shows "retrieve L idx w q k = (if fst r4 = [] then tier5 L (snd r4) q k [] else r4)"
proof -
  have t1: "tier1 L chat_SYNONYMS (parsed_files w) (str_lower L q) [] (map fst idx) = []"
    unfolding chat_SYNONYMS_def by (rule tier1_unresolved)
  show ?thesis
    unfolding retrieve_def Let_def t1 using assms by (auto simp: split_beta)
qed

lemma retrieve_n1:
  "fst (retrieve ascii_lib idx_n1 world_n1 (ustr ''exam'') 5) =
     [(1, StrId (ustr ''n1''), ustr ''exam'', ustr ''see http://a.b now'', ustr ''see http://a.b now'')]"
proof -
  let ?c = "(1 :: real, StrId (ustr ''n1''), ustr ''exam'', ustr ''see http://a.b now'',
              ustr ''see http://a.b now'')"
  have low: "str_lower ascii_lib (ustr ''exam'') = ustr ''exam''"
    by (simp add: lib_defs)
  have ids: "map fst idx_n1 = [ustr ''n1'']"
    by (simp add: idx_n1_def)
  have dir: "parsed_files world_n1 = corpus_n1"
    by (simp add: world_n1_def)
  have bm: "fst (search ascii_lib world_n1 (ustr ''exam'') 4) = Inr [(ustr ''n1'', ln (4 / 3))]"
    using search_fresh(1) [of world_n1 ascii_lib "ustr ''exam''" 4] score_n1
    by (simp add: world_n1_def)
  have bmdir: "parsed_files (snd (search ascii_lib world_n1 (ustr ''exam'') 4)) = corpus_n1"
    using search_fresh(2) [of world_n1 ascii_lib "ustr ''exam''" 4] by (simp add: world_n1_def)
  have t4: "fst (tier4 ascii_lib world_n1 (ustr ''exam'') 4 [?c]) = [?c]"
    by (simp add: tier4_fst bm bmdir)
  have s2: "tier2 ascii_lib (parsed_files world_n1) (str_lower ascii_lib (ustr ''exam'')) []
              (map fst idx_n1) = [?c]"
    unfolding low ids dir by (rule tier2_n1)
  have s3: "(if list_ex (\<lambda>x. py_in x (str_lower ascii_lib (ustr ''exam''))) who_markers
             then tier3 ascii_lib (parsed_files world_n1) (str_lower ascii_lib (ustr ''exam''))
                    [?c] (map fst idx_n1)
             else [?c]) = [?c]"
    unfolding low by (simp add: who_markers_def ustr_def)
  have s4: "py_take 5 (sorted_desc fst [?c]) = [?c]"
    by (simp add: py_take_def sorted_desc_def)
  have s5: "(if int (length [?c]) < 5
             then tier4 ascii_lib world_n1 (ustr ''exam'') (5 - int (length [?c])) [?c]
             else ([?c], world_n1)) = tier4 ascii_lib world_n1 (ustr ''exam'') 4 [?c]"
    by simp
  show ?thesis
    unfolding retrieve_eval [OF s2 s3 s4 s5] using t4 by simp
qed


lemma chat_no_key:
  assumes "py_strip L (req_question req) = q" and "q \<noteq> []"
    and "fst (retrieve L idx w q (req_top_k req)) = chosen" and "chosen \<noteq> []"
  shows "fst (chat L idx None w req) =
           Reply (sub_url (py_join [10, 10] (map (part_of L q) chosen)))
             (take 2 (dedupe {} [] (map (source_of L idx q) chosen))) False"
  using assms by (auto simp: chat_def chat_sources_def Let_def split_beta)

lemma strip_exam: "py_strip ascii_lib (ustr ''exam'') = ustr ''exam''"
  by (simp add: py_strip_def lib_defs)

text \<open>
  C9. Without an API key the answer is the parts \<open>[title] excerpt\<close> joined by blank lines
  and passed through the substitution, with \<open>llm\<close> false; but the pattern of the
  substitution asks for backslashes, so a link \<open>http://a.b\<close> in an excerpt stays in the
  answer.
\<close>

theorem answer_keeps_url:
  "fst (chat ascii_lib idx_n1 None world_n1 \<lparr>req_question = ustr ''exam'', req_top_k = 5\<rparr>) =
     Reply (ustr ''[exam] see http://a.b now'')
       [\<lparr>s_id = StrId (ustr ''n1''), s_title = ustr ''exam'', s_url = Some (ustr ''http://site/n1''),
         s_score = Some 1, s_excerpt = Some (ustr ''see http://a.b now'')\<rparr>] False \<and>
   py_in (ustr ''http://a.b'') (ustr ''[exam] see http://a.b now'')"
proof -
  let ?req = "\<lparr>req_question = ustr ''exam'', req_top_k = 5\<rparr>"
  let ?c = "(1 :: real, StrId (ustr ''n1''), ustr ''exam'', ustr ''see http://a.b now'',
              ustr ''see http://a.b now'')"
  have q: "py_strip ascii_lib (req_question ?req) = ustr ''exam''"
    by (simp add: strip_exam)
  have ne: "ustr ''exam'' \<noteq> []"
    by (simp add: ustr_def)
  have r: "fst (retrieve ascii_lib idx_n1 world_n1 (ustr ''exam'') (req_top_k ?req)) = [?c]"
    by (simp add: retrieve_n1)
  have part: "map (part_of ascii_lib (ustr ''exam'')) [?c] = [ustr ''[exam] see http://a.b now'']"
    by (simp add: chat_defs lib_defs)
  have clean: "sub_url (ustr ''[exam] see http://a.b now'') = ustr ''[exam] see http://a.b now''"
    by (rule sub_url_backslash) (simp add: ustr_def)
  have src: "take 2 (dedupe {} [] (map (source_of ascii_lib idx_n1 (ustr ''exam'')) [?c])) =
     [\<lparr>s_id = StrId (ustr ''n1''), s_title = ustr ''exam'', s_url = Some (ustr ''http://site/n1''),
       s_score = Some 1, s_excerpt = Some (ustr ''see http://a.b now'')\<rparr>]"
    by (simp add: idx_n1_def chat_defs lib_defs)
  have "fst (chat ascii_lib idx_n1 None world_n1 ?req) =
     Reply (ustr ''[exam] see http://a.b now'')
       [\<lparr>s_id = StrId (ustr ''n1''), s_title = ustr ''exam'', s_url = Some (ustr ''http://site/n1''),
         s_score = Some 1, s_excerpt = Some (ustr ''see http://a.b now'')\<rparr>] False"
    using chat_no_key [OF q ne r] by (simp only: part src py_join.simps clean list.distinct not_False_eq_True)
  moreover have "py_in (ustr ''http://a.b'') (ustr ''[exam] see http://a.b now'')"
    by (simp add: ustr_def)
  ultimately show ?thesis by simp
qed

text \<open>
  C1. Tier 1 reads the name \<open>SYNONYMS\<close>, which \<open>chat\<close> cannot resolve: every document
  raises inside the \<open>try\<close> and is skipped, so Tier 1 selects nothing, here for a notice
  titled \<open>exam\<close> and the query \<open>exam\<close>, whose score by the stated formula is 5.
\<close>

theorem tier1_never_selects:
  "tier1 ascii_lib chat_SYNONYMS corpus_n1 (ustr ''exam'') [] [ustr ''n1''] = [] \<and>
   tier1_spec_score search_SYNONYMS (ustr ''exam'') (ustr ''exam'') (ustr ''see http://a.b now'')
     [ustr ''exam''] = 5"
proof
  show "tier1 ascii_lib chat_SYNONYMS corpus_n1 (ustr ''exam'') [] [ustr ''n1''] = []"
    unfolding chat_SYNONYMS_def by (rule tier1_unresolved)
  show "tier1_spec_score search_SYNONYMS (ustr ''exam'') (ustr ''exam'')
          (ustr ''see http://a.b now'') [ustr ''exam''] = 5"
    by (simp add: tier1_spec_score_def search_SYNONYMS_def ustr_def)
qed

text \<open>With the table of \<open>search\<close> in scope the same notice would be selected, with score 5.\<close>

lemma tier1_n1_resolved:
  "tier1 ascii_lib (Some search_SYNONYMS) corpus_n1 (ustr ''exam'') [] [ustr ''n1''] =
     [(5, StrId (ustr ''n1''), ustr ''exam'', ustr ''see http://a.b now'', ustr ''see http://a.b now'')]"
  by (simp add: tier1_doc_def read_parsed_def corpus_n1_def strip_html_def search_SYNONYMS_def
      lib_defs Let_def)

lemma tier4_n1:
  "fst (tier4 ascii_lib world_n1 (ustr ''exam'') 4
     [(1, StrId (ustr ''n1''), ustr ''exam'', ustr ''see http://a.b now'', ustr ''see http://a.b now'')]) =
     [(1, StrId (ustr ''n1''), ustr ''exam'', ustr ''see http://a.b now'', ustr ''see http://a.b now'')]"
proof -
  have bm: "fst (search ascii_lib world_n1 (ustr ''exam'') 4) = Inr [(ustr ''n1'', ln (4 / 3))]"
    using search_fresh(1) [of world_n1 ascii_lib "ustr ''exam''" 4] score_n1
    by (simp add: world_n1_def)
  have bmdir: "parsed_files (snd (search ascii_lib world_n1 (ustr ''exam'') 4)) = corpus_n1"
    using search_fresh(2) [of world_n1 ascii_lib "ustr ''exam''" 4] by (simp add: world_n1_def)
  show ?thesis
    by (simp add: tier4_fst bm bmdir)
qed

text \<open>
  C2 (amended). Every tier only appends to the list it is given: the result of Tier 2 and
  of Tier 3 extends the candidate list they start from, and the result of Tier 4 and of
  Tier 5 extends the chosen list. Tier 4 adds no doc_id that is already chosen and adds no
  doc_id twice. (Tier 3 makes no such check, and between Tier 3 and Tier 4 the list is
  sorted by score and cut to \<open>top_k\<close>.)
\<close>

theorem tiers_only_add:
  "prefix c (tier2 L dir ql c ids) \<and>
   prefix c (tier3 L dir ql c ids) \<and>
   (\<exists>added. fst (tier4 L w q need chosen) = chosen @ added \<and>
      distinct (map (fst \<circ> snd) added) \<and>
      (\<forall>a \<in> set added. fst (snd a) \<notin> (fst \<circ> snd) ` set chosen)) \<and>
   prefix chosen (fst (tier5 L w q k chosen))"
proof -
  have t4: "\<exists>added. fst (tier4 L w q need chosen) = chosen @ added \<and>
      distinct (map (fst \<circ> snd) added) \<and>
      (\<forall>a \<in> set added. fst (snd a) \<notin> (fst \<circ> snd) ` set chosen)"
  proof (cases "fst (search L w q need)")
    case (Inl e)
    then have "fst (tier4 L w q need chosen) = chosen @ []"
      by (simp add: tier4_fst)
    then show ?thesis by (intro exI [of _ "[]"]) simp
  next
    case (Inr bm)
    then show ?thesis
      using tier4_loop_adds [of L "parsed_files (snd (search L w q need))" chosen bm]
      by (simp add: tier4_fst)
  qed
  have t5: "prefix chosen (fst (tier5 L w q k chosen))"
    by (cases "fst (search L w q k)") (simp_all add: tier5_fst tier5_loop_extends)
  show ?thesis
    using tier2_extends tier3_extends t4 t5 by blast
qed

text \<open>The amended C2 on the notice \<open>n1\<close>.\<close>

theorem tiers_only_add_witness:
  "tier2 ascii_lib corpus_n1 who_exam [] [ustr ''n1''] =
     [(1, StrId (ustr ''n1''), ustr ''exam'', ustr ''see http://a.b now'', ustr ''see http://a.b now'')] \<and>
   prefix [(1, StrId (ustr ''n1''), ustr ''exam'', ustr ''see http://a.b now'', ustr ''see http://a.b now'')]
     (tier3 ascii_lib corpus_n1 who_exam
        [(1, StrId (ustr ''n1''), ustr ''exam'', ustr ''see http://a.b now'', ustr ''see http://a.b now'')]
        [ustr ''n1'']) \<and>
   fst (tier4 ascii_lib world_n1 (ustr ''exam'') 4
     [(1, StrId (ustr ''n1''), ustr ''exam'', ustr ''see http://a.b now'', ustr ''see http://a.b now'')]) =
     [(1, StrId (ustr ''n1''), ustr ''exam'', ustr ''see http://a.b now'', ustr ''see http://a.b now'')]"
  using tiers_only_add [of "[(1, StrId (ustr ''n1''), ustr ''exam'', ustr ''see http://a.b now'',
      ustr ''see http://a.b now'')]" ascii_lib corpus_n1 who_exam "[ustr ''n1'']" world_n1
      "ustr ''exam''" 4 "[(1, StrId (ustr ''n1''), ustr ''exam'', ustr ''see http://a.b now'',
      ustr ''see http://a.b now'')]" 5]
    tier2_who tier4_n1
  by simp

lemma retrieve_who:
  "fst (retrieve ascii_lib idx_n1 world_n1 who_exam 2) =
     [(2, StrId (ustr ''n1''), ustr ''exam'', ustr ''see http://a.b now'', ustr ''see http://a.b now''),
      (1, StrId (ustr ''n1''), ustr ''exam'', ustr ''see http://a.b now'', ustr ''see http://a.b now'')]"
proof -
  let ?c1 = "(1 :: real, StrId (ustr ''n1''), ustr ''exam'', ustr ''see http://a.b now'',
              ustr ''see http://a.b now'')"
  let ?c2 = "(2 :: real, StrId (ustr ''n1''), ustr ''exam'', ustr ''see http://a.b now'',
              ustr ''see http://a.b now'')"
  have low: "str_lower ascii_lib who_exam = who_exam"
    by (simp add: who_exam_def lib_defs)
  have ids: "map fst idx_n1 = [ustr ''n1'']"
    by (simp add: idx_n1_def)
  have dir: "parsed_files world_n1 = corpus_n1"
    by (simp add: world_n1_def)
  have who: "list_ex (\<lambda>x. py_in x who_exam) who_markers"
    by (simp add: who_markers_def who_exam_def ustr_def)
  have s2: "tier2 ascii_lib (parsed_files world_n1) (str_lower ascii_lib who_exam) []
              (map fst idx_n1) = [?c1]"
    unfolding low ids dir by (rule tier2_who)
  have s3: "(if list_ex (\<lambda>x. py_in x (str_lower ascii_lib who_exam)) who_markers
             then tier3 ascii_lib (parsed_files world_n1) (str_lower ascii_lib who_exam)
                    [?c1] (map fst idx_n1)
             else [?c1]) = [?c1, ?c2]"
    unfolding low ids dir using who by (simp only: if_True tier3_who)
  have s4: "py_take 2 (sorted_desc fst [?c1, ?c2]) = [?c2, ?c1]"
    by (simp add: py_take_def sorted_desc_def)
  have s5: "(if int (length [?c2, ?c1]) < 2
             then tier4 ascii_lib world_n1 who_exam (2 - int (length [?c2, ?c1])) [?c2, ?c1]
             else ([?c2, ?c1], world_n1)) = ([?c2, ?c1], world_n1)"
    by simp
  show ?thesis
    unfolding retrieve_eval [OF s2 s3 s4 s5] by simp
qed

text \<open>
  C2 as stated fails: for a who-question Tier 3 appends the notice \<open>n1\<close> that Tier 2 has
  already put in the list, and the retrieval returns the same doc_id twice.
\<close>

theorem tier3_adds_present_id:
  "map (fst \<circ> snd) (tier2 ascii_lib corpus_n1 who_exam [] [ustr ''n1'']) = [StrId (ustr ''n1'')] \<and>
   map (fst \<circ> snd)
     (tier3 ascii_lib corpus_n1 who_exam (tier2 ascii_lib corpus_n1 who_exam [] [ustr ''n1''])
        [ustr ''n1'']) = [StrId (ustr ''n1''), StrId (ustr ''n1'')] \<and>
   map (fst \<circ> snd) (fst (retrieve ascii_lib idx_n1 world_n1 who_exam 2)) =
     [StrId (ustr ''n1''), StrId (ustr ''n1'')]"
  by (simp only: tier2_who tier3_who retrieve_who) simp

lemma build_ab:
  "build ascii_lib corpus_ab BM25Index_init =
     \<lparr>N = 2, avgdl = 3, doc_len = [(ustr ''b'', 3), (ustr ''a'', 3)],
      tf = [(ustr ''b'', [(ustr ''ab'', 2), (ustr ''cd'', 1)]),
            (ustr ''a'', [(ustr ''ab'', 2), (ustr ''ef'', 1)])],
      df = [(ustr ''ab'', 2), (ustr ''cd'', 1), (ustr ''ef'', 1)],
      docs = [(ustr ''b'', ustr ''ab''), (ustr ''a'', ustr ''ab'')]\<rparr>"
  by (simp add: eval_defs corpus_ab_def BM25Index_init_def)

lemma score_ab:
  "score ascii_lib (build ascii_lib corpus_ab BM25Index_init) (ustr ''ab'') 1.5 0.75 k =
     Inr (py_take k [(ustr ''b'', 10 * ln (6 / 5) / 7), (ustr ''a'', 10 * ln (6 / 5) / 7)])"
  unfolding build_ab
  by (simp add: score_def idf_term_def py_truediv_def math_log_def sorted_desc_def
      ustr_def tokenize_def ascii_lib_def particles_def dict_get0_def Let_def)

text \<open>
  C4. With \<open>top_k = -1\<close> and the query \<open>ab\<close> Tiers 1 to 3 find nothing and Tier 4 is
  skipped, so Tier 5 runs on an empty list. The index returns the hit \<open>b\<close>, but the loop
  takes the score for the document id, opens no file, and no candidate is made.
\<close>

theorem tier5_makes_no_candidate:
  "fst (search ascii_lib world_ab (ustr ''ab'') (- 1)) = Inr [(ustr ''b'', 10 * ln (6 / 5) / 7)] \<and>
   fst (retrieve ascii_lib idx_ab world_ab (ustr ''ab'') (- 1)) = []"
proof -
  have low: "str_lower ascii_lib (ustr ''ab'') = ustr ''ab''"
    by (simp add: lib_defs)
  have bm: "fst (search ascii_lib world_ab (ustr ''ab'') (- 1)) = Inr [(ustr ''b'', 10 * ln (6 / 5) / 7)]"
    using search_fresh(1) [of world_ab ascii_lib "ustr ''ab''" "- 1"] score_ab [of "- 1"]
    by (simp add: world_ab_def py_take_def)
  have bmdir: "parsed_files (snd (search ascii_lib world_ab (ustr ''ab'') (- 1))) = corpus_ab"
    using search_fresh(2) [of world_ab ascii_lib "ustr ''ab''" "- 1"] by (simp add: world_ab_def)
  have s2: "tier2 ascii_lib (parsed_files world_ab) (str_lower ascii_lib (ustr ''ab'')) []
              (map fst idx_ab) = []"
    unfolding low by (simp add: world_ab_def idx_ab_def corpus_ab_def chat_defs lib_defs)
  have s3: "(if list_ex (\<lambda>x. py_in x (str_lower ascii_lib (ustr ''ab''))) who_markers
             then tier3 ascii_lib (parsed_files world_ab) (str_lower ascii_lib (ustr ''ab''))
                    [] (map fst idx_ab)
             else []) = []"
    unfolding low by (simp add: who_markers_def ustr_def)
  have s4: "py_take (- 1) (sorted_desc fst ([] :: candidate list)) = []"
    by (simp add: py_take_def sorted_desc_def)
  have s5: "(if int (length ([] :: candidate list)) < - 1
             then tier4 ascii_lib world_ab (ustr ''ab'') (- 1 - int (length ([] :: candidate list))) []
             else ([], world_ab)) = ([], world_ab)"
    by simp
  have t5: "fst (tier5 ascii_lib world_ab (ustr ''ab'') (- 1) []) = []"
    unfolding tier5_fst bm bmdir by (simp add: read_parsed_def corpus_ab_def lib_defs)
  show ?thesis
    unfolding retrieve_eval [OF s2 s3 s4 s5] using bm t5 by simp
qed

end
